theory Spec2Isabelle
  imports Complex_Main
begin

section \<open>The entity store\<close>

text \<open>
  The application is a TypeScript client of a hosted PostgreSQL store. The service
  functions of \<^verbatim>\<open>services/database.ts\<close> each send one statement (two for
  \<^verbatim>\<open>voteForDrink\<close>); the tables, their constraints and their triggers come from
  the SQL migrations. The store is a record of tables, each table a list of rows in
  insertion order (\<^verbatim>\<open>created_at\<close> ascending), and every operation takes the
  store and returns the new one.

  Conventions of the model:
  \<^item> a UUID is an opaque identifier; \<^verbatim>\<open>gen_random_uuid()\<close> is the counter
    \<open>next_uuid\<close> of the store, so the collision of a random UUID with a stored key is
    not part of the model;
  \<^item> a nullable column is an \<open>option\<close>; \<^verbatim>\<open>INTEGER\<close> is an \<open>int\<close> whose
    32-bit range is checked where a statement writes it (PostgreSQL raises
    \<^verbatim>\<open>integer out of range\<close>, it does not wrap);
  \<^item> a \<^verbatim>\<open>NUMERIC\<close> amount is a rational, and a JavaScript number that carries
    one is represented by the decimal JSON writes for it, which is what the column
    receives. JavaScript's \<^verbatim>\<open>*\<close> is IEEE-754 binary64 multiplication: the model
    gives its result where it is exact and takes the engine's rounded result as a
    parameter elsewhere (\<open>js_times\<close> below);
  \<^item> a request either reaches the store or fails in transit: every service function
    takes the \<open>transport\<close> outcome of each request it sends. A statement that fails
    leaves the store as it was;
  \<^item> row-level security, the joined \<^verbatim>\<open>profiles\<close> and \<^verbatim>\<open>drink_brand\<close>
    columns of the selects, timestamps and the text columns no operation below reads
    are left out.
\<close>

type_synonym uuid = nat

datatype InvitationStatus = CONFIRMED | PENDING | DECLINED

datatype PaymentStatus = PAID | NOT_PAID

datatype error =
    TransportFailure
  | NumericValueOutOfRange
  | CheckViolation
  | ForeignKeyViolation
  | NoRows
  | MultipleRows
  | NoProfile

datatype transport = Delivered | Dropped

definition INT4_MAX :: int where
  "INT4_MAX = 2147483647"

definition INT4_MIN :: int where
  "INT4_MIN = - 2147483648"

definition in_int4 :: "int \<Rightarrow> bool" where
  "in_int4 v = (INT4_MIN \<le> v \<and> v \<le> INT4_MAX)"

record profiles_row =
  prof_id :: uuid
  mission_count :: "int option"

text \<open>
  Modelled from the spec: the DDL of \<^verbatim>\<open>payments\<close> and \<^verbatim>\<open>invitations\<close> is not
  in the sources. Both are keyed by the unique pair (spot, user) (spec, section 3; the
  services name it in \<^verbatim>\<open>onConflict: 'spot_id,user_id'\<close>), and both reference
  \<^verbatim>\<open>spots\<close> and \<^verbatim>\<open>profiles\<close> (deleting a spot cascades to them, and the
  selects embed \<^verbatim>\<open>profiles:user_id\<close>). \<^verbatim>\<open>drink_total_amount\<close> is the column the
  drink-selection migration adds (\<^verbatim>\<open>NUMERIC DEFAULT 0\<close>).
\<close>

record invitations_row =
  inv_id :: uuid
  inv_spot_id :: uuid
  inv_user_id :: uuid
  inv_status :: InvitationStatus

record payments_row =
  pay_id :: uuid
  pay_spot_id :: uuid
  pay_user_id :: uuid
  pay_status :: PaymentStatus
  drink_total_amount :: rat

record UserDrinkSelection =
  sel_id :: uuid
  sel_spot_id :: uuid
  sel_user_id :: uuid
  drink_brand_id :: uuid
  quantity :: int
  unit_price :: rat
  total_price :: rat

record attendance_row =
  att_id :: uuid
  att_spot_id :: uuid
  att_user_id :: uuid
  attended :: "bool option"

record drinks_row =
  drink_id :: uuid
  drink_spot_id :: uuid
  votes :: "int option"
  suggested_by :: uuid
  voted_by :: "uuid list option"

record database =
  spots :: "uuid list"
  profiles :: "profiles_row list"
  drink_brands :: "uuid list"
  invitations :: "invitations_row list"
  payments :: "payments_row list"
  user_drink_selections :: "UserDrinkSelection list"
  attendance :: "attendance_row list"
  drinks :: "drinks_row list"
  next_uuid :: uuid

text \<open>The objects the services return (\<^verbatim>\<open>types.ts\<close>); an optional field is an \<open>option\<close>.\<close>

record Payment =
  payment_id :: uuid
  payment_spot_id :: uuid
  payment_user_id :: uuid
  payment_status :: PaymentStatus
  payment_drink_total_amount :: "rat option"

record Invitation =
  invitation_id :: uuid
  invitation_spot_id :: uuid
  invitation_user_id :: uuid
  invitation_status :: InvitationStatus

record Drink =
  d_id :: uuid
  d_spot_id :: uuid
  d_votes :: int
  d_suggested_by :: uuid
  d_voted_by :: "uuid list"

record selectionData =
  sd_spot_id :: uuid
  sd_user_id :: uuid
  sd_drink_brand_id :: uuid
  sd_quantity :: int
  sd_unit_price :: rat

record paymentData =
  pd_spot_id :: uuid
  pd_user_id :: uuid
  pd_status :: PaymentStatus

record invitationData =
  id_spot_id :: uuid
  id_user_id :: uuid
  id_status :: InvitationStatus

record attendanceData =
  ad_spot_id :: uuid
  ad_user_id :: uuid
  ad_attended :: bool

text \<open>\<^verbatim>\<open>.single()\<close>: exactly one row, or an error.\<close>

definition single :: "'a list \<Rightarrow> error + 'a" where
  "single rows = (case rows of [] \<Rightarrow> Inl NoRows | [r] \<Rightarrow> Inr r | _ # _ # _ \<Rightarrow> Inl MultipleRows)"

text \<open>The foreign keys to \<^verbatim>\<open>spots(id)\<close> and \<^verbatim>\<open>profiles(id)\<close>.\<close>

definition references_spot_and_profile :: "database \<Rightarrow> uuid \<Rightarrow> uuid \<Rightarrow> bool" where
  "references_spot_and_profile db spotId userId =
     (spotId \<in> set (spots db) \<and> userId \<in> set (map prof_id (profiles db)))"

section \<open>Drink selections and the payment drink total\<close>

text \<open>
  \<^verbatim>\<open>update_payment_drink_total()\<close>, the trigger function of
  \<^verbatim>\<open>AFTER INSERT OR UPDATE OR DELETE ON user_drink_selections FOR EACH ROW\<close>. Its body
  reads only \<^verbatim>\<open>NEW\<close>. In a row-level trigger PostgreSQL leaves \<^verbatim>\<open>NEW\<close> null for
  \<^verbatim>\<open>DELETE\<close> (and \<^verbatim>\<open>OLD\<close> null for \<^verbatim>\<open>INSERT\<close>, which
  \<^verbatim>\<open>update_mission_count_on_attendance\<close> relies on); with \<^verbatim>\<open>NEW\<close> null,
  \<^verbatim>\<open>spot_id = NEW.spot_id\<close> is not true of any row, so the \<^verbatim>\<open>UPDATE\<close> changes
  nothing. \<^verbatim>\<open>COALESCE(SUM(total_price), 0)\<close> is \<open>sum_list\<close>, which is 0 on no rows.
\<close>

definition update_payment_drink_total ::
  "UserDrinkSelection option \<Rightarrow> UserDrinkSelection option \<Rightarrow> database \<Rightarrow> database" where
  "update_payment_drink_total OLD NEW db =
     (case NEW of
        None \<Rightarrow> db
      | Some n \<Rightarrow>
          db\<lparr>payments :=
            map (\<lambda>p. if pay_spot_id p = sel_spot_id n \<and> pay_user_id p = sel_user_id n
                     then p\<lparr>drink_total_amount :=
                            sum_list (map total_price
                              (filter (\<lambda>s. sel_spot_id s = sel_spot_id n \<and> sel_user_id s = sel_user_id n)
                                 (user_drink_selections db)))\<rparr>
                     else p)
              (payments db)\<rparr>)"

text \<open>
  \<^verbatim>\<open>quantity * unit_price\<close> as JavaScript evaluates it and as the request carries
  it to the \<^verbatim>\<open>NUMERIC\<close> column. The quantity is a whole number. When the unit price
  is a whole number too and the product is at most \<open>2^53\<close> in magnitude, the factors
  and the product are doubles, the multiplication is exact and JSON writes the result
  digit for digit. Everywhere else (a fractional price, a larger product) the result
  is the engine's rounding of the product, the parameter \<open>rounded\<close>; the model
  assumes nothing about it.
\<close>

definition js_times :: "(int \<Rightarrow> rat \<Rightarrow> rat) \<Rightarrow> int \<Rightarrow> rat \<Rightarrow> rat" where
  "js_times rounded q p =
     (if p = of_int \<lfloor>p\<rfloor> \<and> \<bar>of_int q * p\<bar> \<le> 2 ^ 53 then of_int q * p else rounded q p)"

text \<open>
  The engine of the examples: IEEE-754 binary64 arithmetic and the way JavaScript
  writes a number into JSON.

  \<open>digits b n\<close> is the number of base-\<open>b\<close> digits of \<open>n\<close>, and \<open>ilog b a\<close> is
  \<open>\<lfloor>log\<^sub>b a\<rfloor>\<close> for a positive rational \<open>a\<close>.
\<close>

function digits :: "int \<Rightarrow> int \<Rightarrow> int" where
  "digits b n = (if n \<le> 0 \<or> b < 2 then 0 else digits b (n div b) + 1)"
  by pat_completeness auto

termination
  by (relation "measure (\<lambda>(b, n). nat n)") (simp_all add: int_div_less_self)

declare digits.simps [simp del]

definition ilog :: "int \<Rightarrow> rat \<Rightarrow> int" where
  "ilog b a = (if 1 \<le> a then digits b \<lfloor>a\<rfloor> - 1 else - digits b (\<lceil>1 / a\<rceil> - 1))"

text \<open>
  \<open>binary64 r\<close> is the double nearest to \<open>r\<close>, the one with the even significand
  on a tie: the significand has 53 bits, and the exponent does not go below that of
  the subnormal numbers. (A magnitude of \<open>2^1024\<close> or more, which rounds to
  \<^verbatim>\<open>Infinity\<close>, is outside the model.) It is the value of a numeric literal, of a
  \<^verbatim>\<open>NUMERIC\<close> read from JSON and of the exact result of an arithmetic operation.
\<close>

definition binary64 :: "rat \<Rightarrow> rat" where
  "binary64 r =
     (if r = 0 then 0
      else
        let e = max (ilog 2 \<bar>r\<bar> - 52) (- 1074);
            m = \<bar>r\<bar> / power_int 2 e;
            k = \<lfloor>m\<rfloor>;
            f = m - of_int k
        in sgn r * of_int (if 1 / 2 < f \<or> (f = 1 / 2 \<and> odd k) then k + 1 else k)
             * power_int 2 e)"

text \<open>
  \<^verbatim>\<open>JSON.stringify\<close> writes a number as \<^verbatim>\<open>Number::toString\<close> does: the decimal
  \<open>s \<times> 10^(n - k)\<close> with the fewest digits \<open>k\<close> that reads back as the same double,
  the one closest to the double when several have \<open>k\<close> digits, the even \<open>s\<close> when
  two are equally close. \<open>round_trip_decimal a k\<close> is that decimal for a positive
  double \<open>a\<close> and a given \<open>k\<close>, if there is one: a decimal of \<open>k\<close> digits that reads
  back as \<open>a\<close> exists only if one of the two that enclose \<open>a\<close> does. Seventeen digits
  always suffice.
\<close>

definition round_trip_decimal :: "rat \<Rightarrow> nat \<Rightarrow> rat option" where
  "round_trip_decimal a k =
     (let n = ilog 10 a + 1;
          unit = power_int 10 (n - int k);
          s = \<lfloor>a / unit\<rfloor>;
          lo = of_int s * unit;
          hi = of_int (s + 1) * unit
      in if binary64 lo = a \<and> binary64 hi = a
         then Some (if a - lo < hi - a \<or> (a - lo = hi - a \<and> even s) then lo else hi)
         else if binary64 lo = a then Some lo
         else if binary64 hi = a then Some hi
         else None)"

definition number_to_json :: "rat \<Rightarrow> rat" where
  "number_to_json x =
     (if x = 0 then 0
      else case List.map_filter (round_trip_decimal \<bar>x\<bar>) [1 ..< 18] of
             [] \<Rightarrow> x
           | d # _ \<Rightarrow> sgn x * d)"

text \<open>
  The product of a whole quantity and a price as the request carries it: both factors
  as doubles, the exact product rounded to a double, the double written into JSON.
\<close>

definition binary64_times :: "int \<Rightarrow> rat \<Rightarrow> rat" where
  "binary64_times q p = number_to_json (binary64 (binary64 (of_int q) * binary64 p))"

definition same_selection_key :: "selectionData \<Rightarrow> UserDrinkSelection \<Rightarrow> bool" where
  "same_selection_key sd s =
     (sel_spot_id s = sd_spot_id sd \<and> sel_user_id s = sd_user_id sd
      \<and> drink_brand_id s = sd_drink_brand_id sd)"

text \<open>
  \<^verbatim>\<open>userDrinkSelectionService.upsertSelection\<close>: an insert with
  \<^verbatim>\<open>ON CONFLICT (spot_id, user_id, drink_brand_id) DO UPDATE\<close> of the columns sent.
  \<^verbatim>\<open>total_price\<close> is the JavaScript product of quantity and unit price. The row
  must pass the \<^verbatim>\<open>INTEGER\<close> conversion of \<^verbatim>\<open>quantity\<close>,
  \<^verbatim>\<open>CHECK (quantity > 0)\<close> and the three foreign keys; the trigger then runs on the
  written row.
\<close>

definition upsertSelection ::
  "(int \<Rightarrow> rat \<Rightarrow> rat) \<Rightarrow> transport \<Rightarrow> selectionData \<Rightarrow> database
     \<Rightarrow> (error + UserDrinkSelection) \<times> database" where
  "upsertSelection rounded net sd db =
     (let total = js_times rounded (sd_quantity sd) (sd_unit_price sd) in
      if net = Dropped then (Inl TransportFailure, db)
      else if in_int4 (sd_quantity sd) then
        if 0 < sd_quantity sd then
          if references_spot_and_profile db (sd_spot_id sd) (sd_user_id sd)
             \<and> sd_drink_brand_id sd \<in> set (drink_brands db) then
            (case find (same_selection_key sd) (user_drink_selections db) of
               None \<Rightarrow>
                 let row = \<lparr>sel_id = next_uuid db, sel_spot_id = sd_spot_id sd,
                            sel_user_id = sd_user_id sd, drink_brand_id = sd_drink_brand_id sd,
                            quantity = sd_quantity sd, unit_price = sd_unit_price sd,
                            total_price = total\<rparr>;
                     db' = db\<lparr>user_drink_selections := user_drink_selections db @ [row],
                              next_uuid := Suc (next_uuid db)\<rparr>
                 in (Inr row, update_payment_drink_total None (Some row) db')
             | Some old \<Rightarrow>
                 let row = old\<lparr>quantity := sd_quantity sd, unit_price := sd_unit_price sd,
                               total_price := total\<rparr>;
                     db' = db\<lparr>user_drink_selections :=
                              map (\<lambda>s. if same_selection_key sd s
                                       then s\<lparr>quantity := sd_quantity sd,
                                              unit_price := sd_unit_price sd,
                                              total_price := total\<rparr>
                                       else s)
                                (user_drink_selections db)\<rparr>
                 in (Inr row, update_payment_drink_total (Some old) (Some row) db'))
          else (Inl ForeignKeyViolation, db)
        else (Inl CheckViolation, db)
      else (Inl NumericValueOutOfRange, db))"

text \<open>
  \<^verbatim>\<open>userDrinkSelectionService.deleteSelection\<close>: \<^verbatim>\<open>DELETE ... WHERE id = selectionId\<close>.
  The trigger runs once for each deleted row, with that row as \<^verbatim>\<open>OLD\<close> and
  \<^verbatim>\<open>NEW\<close> null.
\<close>

definition deleteSelection ::
  "transport \<Rightarrow> uuid \<Rightarrow> database \<Rightarrow> (error + unit) \<times> database" where
  "deleteSelection net selectionId db =
     (if net = Dropped then (Inl TransportFailure, db)
      else
        let deleted = filter (\<lambda>s. sel_id s = selectionId) (user_drink_selections db);
            db' = db\<lparr>user_drink_selections :=
                     filter (\<lambda>s. sel_id s \<noteq> selectionId) (user_drink_selections db)\<rparr>
        in (Inr (), fold (\<lambda>old. update_payment_drink_total (Some old) None) deleted db'))"



section \<open>Invitations and payments\<close>

definition toInvitation :: "invitations_row \<Rightarrow> Invitation" where
  "toInvitation r =
     \<lparr>invitation_id = inv_id r, invitation_spot_id = inv_spot_id r,
      invitation_user_id = inv_user_id r, invitation_status = inv_status r\<rparr>"

text \<open>
  The object \<^verbatim>\<open>getPayments\<close> and \<^verbatim>\<open>upsertPayment\<close> build from a selected row:
  \<^verbatim>\<open>id\<close>, \<^verbatim>\<open>spot_id\<close>, \<^verbatim>\<open>user_id\<close>, \<^verbatim>\<open>profiles\<close> and \<^verbatim>\<open>status\<close>. The
  optional \<^verbatim>\<open>drink_total_amount\<close> of the \<^verbatim>\<open>Payment\<close> interface is not copied.
\<close>

definition toPayment :: "payments_row \<Rightarrow> Payment" where
  "toPayment r =
     \<lparr>payment_id = pay_id r, payment_spot_id = pay_spot_id r,
      payment_user_id = pay_user_id r, payment_status = pay_status r,
      payment_drink_total_amount = None\<rparr>"

definition getInvitations :: "transport \<Rightarrow> uuid \<Rightarrow> database \<Rightarrow> error + Invitation list" where
  "getInvitations net spotId db =
     (if net = Dropped then Inl TransportFailure
      else Inr (map toInvitation (filter (\<lambda>r. inv_spot_id r = spotId) (invitations db))))"

definition same_invitation_key :: "invitationData \<Rightarrow> invitations_row \<Rightarrow> bool" where
  "same_invitation_key d r = (inv_spot_id r = id_spot_id d \<and> inv_user_id r = id_user_id d)"

text \<open>
  \<^verbatim>\<open>invitationService.upsertInvitation\<close>: an insert with
  \<^verbatim>\<open>ON CONFLICT (spot_id, user_id) DO UPDATE\<close> of the columns sent.
\<close>

definition upsertInvitation ::
  "transport \<Rightarrow> invitationData \<Rightarrow> database \<Rightarrow> (error + Invitation) \<times> database" where
  "upsertInvitation net d db =
     (if net = Dropped then (Inl TransportFailure, db)
      else if references_spot_and_profile db (id_spot_id d) (id_user_id d) then
        (case find (same_invitation_key d) (invitations db) of
           None \<Rightarrow>
             let row = \<lparr>inv_id = next_uuid db, inv_spot_id = id_spot_id d,
                        inv_user_id = id_user_id d, inv_status = id_status d\<rparr>
             in (Inr (toInvitation row),
                 db\<lparr>invitations := invitations db @ [row], next_uuid := Suc (next_uuid db)\<rparr>)
         | Some old \<Rightarrow>
             (Inr (toInvitation (old\<lparr>inv_status := id_status d\<rparr>)),
              db\<lparr>invitations :=
                   map (\<lambda>r. if same_invitation_key d r then r\<lparr>inv_status := id_status d\<rparr> else r)
                     (invitations db)\<rparr>))
      else (Inl ForeignKeyViolation, db))"

text \<open>\<^verbatim>\<open>invitationService.updateInvitationStatus\<close>: \<^verbatim>\<open>UPDATE ... WHERE id = invitationId\<close>.\<close>

definition updateInvitationStatus ::
  "transport \<Rightarrow> uuid \<Rightarrow> InvitationStatus \<Rightarrow> database \<Rightarrow> (error + unit) \<times> database" where
  "updateInvitationStatus net invitationId status db =
     (if net = Dropped then (Inl TransportFailure, db)
      else (Inr (),
            db\<lparr>invitations :=
                 map (\<lambda>r. if inv_id r = invitationId then r\<lparr>inv_status := status\<rparr> else r)
                   (invitations db)\<rparr>))"

text \<open>\<^verbatim>\<open>paymentService.getPayments\<close>: the payments of a spot, oldest first.\<close>

definition getPayments :: "transport \<Rightarrow> uuid \<Rightarrow> database \<Rightarrow> error + Payment list" where
  "getPayments net spotId db =
     (if net = Dropped then Inl TransportFailure
      else Inr (map toPayment (filter (\<lambda>r. pay_spot_id r = spotId) (payments db))))"

definition same_payment_key :: "paymentData \<Rightarrow> payments_row \<Rightarrow> bool" where
  "same_payment_key d r = (pay_spot_id r = pd_spot_id d \<and> pay_user_id r = pd_user_id d)"

text \<open>
  \<^verbatim>\<open>paymentService.upsertPayment\<close>: an insert of \<^verbatim>\<open>spot_id\<close>, \<^verbatim>\<open>user_id\<close> and
  \<^verbatim>\<open>status\<close> with \<^verbatim>\<open>ON CONFLICT (spot_id, user_id) DO UPDATE\<close> of the columns
  sent. A new row takes the column default 0 for \<^verbatim>\<open>drink_total_amount\<close>.
\<close>

definition upsertPayment ::
  "transport \<Rightarrow> paymentData \<Rightarrow> database \<Rightarrow> (error + Payment) \<times> database" where
  "upsertPayment net d db =
     (if net = Dropped then (Inl TransportFailure, db)
      else if references_spot_and_profile db (pd_spot_id d) (pd_user_id d) then
        (case find (same_payment_key d) (payments db) of
           None \<Rightarrow>
             let row = \<lparr>pay_id = next_uuid db, pay_spot_id = pd_spot_id d,
                        pay_user_id = pd_user_id d, pay_status = pd_status d,
                        drink_total_amount = 0\<rparr>
             in (Inr (toPayment row),
                 db\<lparr>payments := payments db @ [row], next_uuid := Suc (next_uuid db)\<rparr>)
         | Some old \<Rightarrow>
             (Inr (toPayment (old\<lparr>pay_status := pd_status d\<rparr>)),
              db\<lparr>payments :=
                   map (\<lambda>r. if same_payment_key d r then r\<lparr>pay_status := pd_status d\<rparr> else r)
                     (payments db)\<rparr>))
      else (Inl ForeignKeyViolation, db))"

text \<open>
  \<^verbatim>\<open>paymentService.updatePaymentStatus\<close>, which the admin's mark-paid and
  mark-unpaid buttons call: \<^verbatim>\<open>UPDATE payments SET status WHERE id = paymentId\<close>.
\<close>

definition updatePaymentStatus ::
  "transport \<Rightarrow> uuid \<Rightarrow> PaymentStatus \<Rightarrow> database \<Rightarrow> (error + unit) \<times> database" where
  "updatePaymentStatus net paymentId status db =
     (if net = Dropped then (Inl TransportFailure, db)
      else (Inr (),
            db\<lparr>payments :=
                 map (\<lambda>r. if pay_id r = paymentId then r\<lparr>pay_status := status\<rparr> else r)
                   (payments db)\<rparr>))"

section \<open>The RSVP handlers of the home page\<close>

text \<open>
  What a handler leaves on the screen: it returned at once because the session has no
  profile or no spot, it ran to its end, or it raised an alert with the error.
\<close>

datatype report = Returned_early | Completed | Alerted error

text \<open>
  \<^verbatim>\<open>getUserIdAsUUID\<close>: without a session profile it throws; a profile id that has
  the form of a UUID is returned as it is. Session profile ids are UUIDs here, so the
  chain of lookups by phone, email and username that resolves any other id (and may
  create a profile) is outside the model.
\<close>

definition getUserIdAsUUID :: "uuid option \<Rightarrow> uuid \<Rightarrow> error + uuid" where
  "getUserIdAsUUID profile profileId =
     (case profile of None \<Rightarrow> Inl NoProfile | Some p \<Rightarrow> Inr profileId)"

text \<open>
  \<^verbatim>\<open>handleRSVP\<close>: update the invitation; when the new status is confirmed, upsert
  a \<^verbatim>\<open>not_paid\<close> payment inside an inner \<^verbatim>\<open>try\<close> whose \<^verbatim>\<open>catch\<close> only logs;
  then refresh (\<^verbatim>\<open>fetchData\<close> reads and catches its own errors). The first
  transport outcome is that of the invitation update, the second that of the payment
  upsert.
\<close>

definition handleRSVP ::
  "transport \<Rightarrow> transport \<Rightarrow> uuid option \<Rightarrow> uuid option \<Rightarrow> uuid \<Rightarrow> InvitationStatus
     \<Rightarrow> database \<Rightarrow> report \<times> database" where
  "handleRSVP net1 net2 profile spot invitationId status db =
     (case profile of
        None \<Rightarrow> (Returned_early, db)
      | Some profile_id \<Rightarrow>
          (case spot of
             None \<Rightarrow> (Returned_early, db)
           | Some spot_id \<Rightarrow>
               (case updateInvitationStatus net1 invitationId status db of
                  (Inl e, db1) \<Rightarrow> (Alerted e, db1)
                | (Inr u, db1) \<Rightarrow>
                    if status = CONFIRMED then
                      (case getUserIdAsUUID profile profile_id of
                         Inl paymentError \<Rightarrow> (Completed, db1)
                       | Inr userId \<Rightarrow>
                           (Completed,
                            snd (upsertPayment net2
                                   \<lparr>pd_spot_id = spot_id, pd_user_id = userId,
                                    pd_status = NOT_PAID\<rparr> db1)))
                    else (Completed, db1))))"

text \<open>
  \<^verbatim>\<open>handleCreateRSVP\<close>, for a user without an invitation: resolve the user id,
  upsert the invitation, then the same best-effort payment upsert.
\<close>

definition handleCreateRSVP ::
  "transport \<Rightarrow> transport \<Rightarrow> uuid option \<Rightarrow> uuid option \<Rightarrow> InvitationStatus
     \<Rightarrow> database \<Rightarrow> report \<times> database" where
  "handleCreateRSVP net1 net2 profile spot status db =
     (case profile of
        None \<Rightarrow> (Returned_early, db)
      | Some profile_id \<Rightarrow>
          (case spot of
             None \<Rightarrow> (Returned_early, db)
           | Some spot_id \<Rightarrow>
               (case getUserIdAsUUID profile profile_id of
                  Inl e \<Rightarrow> (Alerted e, db)
                | Inr userId \<Rightarrow>
                    (case upsertInvitation net1
                            \<lparr>id_spot_id = spot_id, id_user_id = userId, id_status = status\<rparr> db of
                       (Inl e, db1) \<Rightarrow> (Alerted e, db1)
                     | (Inr invitation, db1) \<Rightarrow>
                         if status = CONFIRMED then
                           (Completed,
                            snd (upsertPayment net2
                                   \<lparr>pd_spot_id = spot_id, pd_user_id = userId,
                                    pd_status = NOT_PAID\<rparr> db1))
                         else (Completed, db1)))))"

section \<open>Attendance and the mission count\<close>

text \<open>
  \<^verbatim>\<open>update_mission_count_on_attendance()\<close>: increment the profile's counter when
  the new row is attended and the old one is absent, null or false. The counter is an
  \<^verbatim>\<open>INTEGER\<close>: an increment past its range raises and aborts the statement.
\<close>

definition update_mission_count_on_attendance ::
  "attendance_row option \<Rightarrow> attendance_row \<Rightarrow> database \<Rightarrow> error + database" where
  "update_mission_count_on_attendance OLD NEW db =
     (let old_attended = (case OLD of None \<Rightarrow> None | Some r \<Rightarrow> attended r) in
      if attended NEW = Some True \<and> (old_attended = None \<or> old_attended = Some False) then
        if list_all (\<lambda>p. in_int4 ((case mission_count p of None \<Rightarrow> 0 | Some c \<Rightarrow> c) + 1))
             (filter (\<lambda>p. prof_id p = att_user_id NEW) (profiles db))
        then Inr (db\<lparr>profiles :=
                    map (\<lambda>p. if prof_id p = att_user_id NEW
                             then p\<lparr>mission_count :=
                                    Some ((case mission_count p of None \<Rightarrow> 0 | Some c \<Rightarrow> c) + 1)\<rparr>
                             else p)
                      (profiles db)\<rparr>)
        else Inl NumericValueOutOfRange
      else Inr db)"

text \<open>
  \<^verbatim>\<open>trigger_update_mission_count\<close>:
  \<^verbatim>\<open>AFTER INSERT OR UPDATE ON attendance FOR EACH ROW WHEN (NEW.attended = true)\<close>.
\<close>

definition trigger_update_mission_count ::
  "attendance_row option \<Rightarrow> attendance_row \<Rightarrow> database \<Rightarrow> error + database" where
  "trigger_update_mission_count OLD NEW db =
     (if attended NEW = Some True then update_mission_count_on_attendance OLD NEW db
      else Inr db)"

definition same_attendance_key :: "attendanceData \<Rightarrow> attendance_row \<Rightarrow> bool" where
  "same_attendance_key d r = (att_spot_id r = ad_spot_id d \<and> att_user_id r = ad_user_id d)"

text \<open>
  \<^verbatim>\<open>attendanceService.upsertAttendance\<close>: an insert with
  \<^verbatim>\<open>ON CONFLICT (spot_id, user_id) DO UPDATE\<close>; the trigger sees no \<^verbatim>\<open>OLD\<close> row on
  the insert path and the replaced row on the update path. An error of the trigger
  undoes the whole statement.
\<close>

definition upsertAttendance ::
  "transport \<Rightarrow> attendanceData \<Rightarrow> database \<Rightarrow> (error + attendance_row) \<times> database" where
  "upsertAttendance net d db =
     (if net = Dropped then (Inl TransportFailure, db)
      else if references_spot_and_profile db (ad_spot_id d) (ad_user_id d) then
        (case find (same_attendance_key d) (attendance db) of
           None \<Rightarrow>
             let row = \<lparr>att_id = next_uuid db, att_spot_id = ad_spot_id d,
                        att_user_id = ad_user_id d, attended = Some (ad_attended d)\<rparr>;
                 db' = db\<lparr>attendance := attendance db @ [row], next_uuid := Suc (next_uuid db)\<rparr>
             in (case trigger_update_mission_count None row db' of
                   Inl e \<Rightarrow> (Inl e, db)
                 | Inr db'' \<Rightarrow> (Inr row, db''))
         | Some old \<Rightarrow>
             let row = old\<lparr>attended := Some (ad_attended d)\<rparr>;
                 db' = db\<lparr>attendance :=
                          map (\<lambda>r. if same_attendance_key d r
                                   then r\<lparr>attended := Some (ad_attended d)\<rparr> else r)
                            (attendance db)\<rparr>
             in (case trigger_update_mission_count (Some old) row db' of
                   Inl e \<Rightarrow> (Inl e, db)
                 | Inr db'' \<Rightarrow> (Inr row, db'')))
      else (Inl ForeignKeyViolation, db))"

text \<open>The counter of a user's profile, as a select of the profile reads it.\<close>

definition mission_count_of :: "database \<Rightarrow> uuid \<Rightarrow> int option" where
  "mission_count_of db userId =
     (case find (\<lambda>p. prof_id p = userId) (profiles db) of
        None \<Rightarrow> None
      | Some p \<Rightarrow> mission_count p)"

section \<open>Drink suggestions and the vote toggle\<close>

text \<open>The object the drink service builds from a row: \<^verbatim>\<open>votes || 0\<close>, \<^verbatim>\<open>voted_by || []\<close>.\<close>

definition toDrink :: "drinks_row \<Rightarrow> Drink" where
  "toDrink r =
     \<lparr>d_id = drink_id r, d_spot_id = drink_spot_id r,
      d_votes = (case votes r of None \<Rightarrow> 0 | Some v \<Rightarrow> v),
      d_suggested_by = suggested_by r,
      d_voted_by = (case voted_by r of None \<Rightarrow> [] | Some l \<Rightarrow> l)\<rparr>"

text \<open>\<^verbatim>\<open>drinkService.createDrink\<close>: a new row with \<^verbatim>\<open>votes: 0\<close> and \<^verbatim>\<open>voted_by: []\<close>.\<close>

definition createDrink ::
  "transport \<Rightarrow> uuid \<Rightarrow> uuid \<Rightarrow> database \<Rightarrow> (error + Drink) \<times> database" where
  "createDrink net spotId suggestedBy db =
     (if net = Dropped then (Inl TransportFailure, db)
      else if references_spot_and_profile db spotId suggestedBy then
        let row = \<lparr>drink_id = next_uuid db, drink_spot_id = spotId, votes = Some 0,
                   suggested_by = suggestedBy, voted_by = Some []\<rparr>
        in (Inr (toDrink row),
            db\<lparr>drinks := drinks db @ [row], next_uuid := Suc (next_uuid db)\<rparr>)
      else (Inl ForeignKeyViolation, db))"

text \<open>
  \<^verbatim>\<open>drinkService.voteForDrink\<close>: read the drink (\<^verbatim>\<open>.single()\<close>), toggle the
  user in the voter list, and write \<^verbatim>\<open>votes\<close> and \<^verbatim>\<open>voted_by\<close> back. Removing
  a vote floors the counter at 0. The two transport outcomes are those of the read and
  of the write.
\<close>

definition voteForDrink ::
  "transport \<Rightarrow> transport \<Rightarrow> uuid \<Rightarrow> uuid \<Rightarrow> database \<Rightarrow> (error + Drink) \<times> database" where
  "voteForDrink net1 net2 drinkId userId db =
     (if net1 = Dropped then (Inl TransportFailure, db)
      else
        (case single (filter (\<lambda>r. drink_id r = drinkId) (drinks db)) of
           Inl fetchError \<Rightarrow> (Inl fetchError, db)
         | Inr drink \<Rightarrow>
             let votedBy = (case voted_by drink of None \<Rightarrow> [] | Some l \<Rightarrow> l);
                 hasVoted = (userId \<in> set votedBy);
                 updatedVotedBy =
                   (if hasVoted then filter (\<lambda>i. i \<noteq> userId) votedBy else votedBy @ [userId]);
                 new_votes =
                   (if hasVoted then max 0 ((case votes drink of None \<Rightarrow> 0 | Some v \<Rightarrow> v) - 1)
                    else (case votes drink of None \<Rightarrow> 0 | Some v \<Rightarrow> v) + 1)
             in if net2 = Dropped then (Inl TransportFailure, db)
                else if in_int4 new_votes then
                  (Inr (toDrink (drink\<lparr>votes := Some new_votes, voted_by := Some updatedVotedBy\<rparr>)),
                   db\<lparr>drinks :=
                        map (\<lambda>r. if drink_id r = drinkId
                                 then r\<lparr>votes := Some new_votes, voted_by := Some updatedVotedBy\<rparr>
                                 else r)
                          (drinks db)\<rparr>)
                else (Inl NumericValueOutOfRange, db)))"

section \<open>Example stores\<close>

text \<open>
  Spot 1, user 2 (five missions so far) and drink brand 3 exist; nothing else is stored.
\<close>

definition fresh_store :: database where
  "fresh_store =
     \<lparr>spots = [1], profiles = [\<lparr>prof_id = 2, mission_count = Some 5\<rparr>], drink_brands = [3],
      invitations = [], payments = [], user_drink_selections = [], attendance = [], drinks = [],
      next_uuid = 10\<rparr>"

text \<open>The order of scenario 7 of the spec: two of brand X at 100 each.\<close>

definition brandX_line :: selectionData where
  "brandX_line =
     \<lparr>sd_spot_id = 1, sd_user_id = 2, sd_drink_brand_id = 3, sd_quantity = 2,
      sd_unit_price = 100\<rparr>"

text \<open>User 2 has confirmed for spot 1: invitation 10 and payment 11 (\<^verbatim>\<open>not_paid\<close>).\<close>

definition confirmed_store :: database where
  "confirmed_store =
     snd (upsertPayment Delivered \<lparr>pd_spot_id = 1, pd_user_id = 2, pd_status = NOT_PAID\<rparr>
       (snd (upsertInvitation Delivered
               \<lparr>id_spot_id = 1, id_user_id = 2, id_status = CONFIRMED\<rparr> fresh_store)))"

text \<open>Then user 2 has put the order in the cart: selection line 12.\<close>

definition ordered_store :: database where
  "ordered_store = snd (upsertSelection binary64_times Delivered brandX_line confirmed_store)"

text \<open>User 2 holds a pending invitation (id 10) for spot 1 and no payment row.\<close>

definition pending_store :: database where
  "pending_store =
     snd (upsertInvitation Delivered \<lparr>id_spot_id = 1, id_user_id = 2, id_status = PENDING\<rparr>
            fresh_store)"

text \<open>User 2 has confirmed for spot 1 and the admin has marked payment 11 as paid.\<close>

definition paid_store :: database where
  "paid_store = snd (updatePaymentStatus Delivered 11 PAID confirmed_store)"

text \<open>User 2 has the largest mission count an \<^verbatim>\<open>INTEGER\<close> column holds.\<close>

definition veteran_store :: database where
  "veteran_store =
     \<lparr>spots = [1], profiles = [\<lparr>prof_id = 2, mission_count = Some 2147483647\<rparr>],
      drink_brands = [3], invitations = [], payments = [], user_drink_selections = [],
      attendance = [], drinks = [], next_uuid = 10\<rparr>"

text \<open>User 2 has suggested a drink for spot 1: drink 10, no votes yet.\<close>

definition suggested_store :: database where
  "suggested_store = snd (createDrink Delivered 1 2 fresh_store)"

text \<open>
  A drink row whose counter and voter list disagree: user 2 is listed as a voter, the
  counter is 0.
\<close>

definition stale_vote_store :: database where
  "stale_vote_store =
     \<lparr>spots = [1], profiles = [\<lparr>prof_id = 2, mission_count = Some 5\<rparr>], drink_brands = [3],
      invitations = [], payments = [], user_drink_selections = [], attendance = [],
      drinks = [\<lparr>drink_id = 20, drink_spot_id = 1, votes = Some 0, suggested_by = 2,
                 voted_by = Some [2]\<rparr>],
      next_uuid = 21\<rparr>"

section \<open>The unique keys of the tables\<close>

text \<open>\<^verbatim>\<open>UNIQUE(spot_id, user_id)\<close> on \<^verbatim>\<open>payments\<close>: no two rows share this pair.\<close>

definition pay_key :: "payments_row \<Rightarrow> uuid \<times> uuid" where
  "pay_key r = (pay_spot_id r, pay_user_id r)"


text \<open>
  The relation of counter and voter list on a drink row, as the service reads them: the
  counter is the number of voters and no voter is listed twice.
\<close>

definition counter_matches_voters :: "drinks_row \<Rightarrow> bool" where
  "counter_matches_voters r =
     (d_votes (toDrink r) = int (length (d_voted_by (toDrink r)))
      \<and> distinct (d_voted_by (toDrink r)))"

section \<open>The drink total after a delete\<close>

lemma delete_trigger_changes_nothing:
  "fold (\<lambda>old. update_payment_drink_total (Some old) None) deleted db = db"
  by (induction deleted) (simp_all add: update_payment_drink_total_def)

text \<open>
  Claim C1. After any insert, update or delete of a selection line of (spot, user),
  the payment row's \<^verbatim>\<open>drink_total_amount\<close> is the sum of \<^verbatim>\<open>total_price\<close> over
  that pair's remaining lines, and 0 when none remain.

  The trigger is declared for \<^verbatim>\<open>DELETE\<close> too, but its function reads the pair
  from \<^verbatim>\<open>NEW\<close>, which is null on a delete: no delete ever changes a payment row.
  In the store where user 2 has confirmed for spot 1 and ordered two of brand X at
  100, the payment row shows 200; deleting the line (id 12) leaves no line for the
  pair, and the payment row still shows 200.
\<close>

theorem deleteSelection_leaves_drink_total:
  "payments (snd (deleteSelection net selectionId db)) = payments db
   \<and> map sel_id (user_drink_selections ordered_store) = [12]
   \<and> map drink_total_amount (payments ordered_store) = [200]
   \<and> fst (deleteSelection Delivered 12 ordered_store) = Inr ()
   \<and> user_drink_selections (snd (deleteSelection Delivered 12 ordered_store)) = []
   \<and> map drink_total_amount (payments (snd (deleteSelection Delivered 12 ordered_store))) = [200]"
proof -
  have "payments (snd (deleteSelection net selectionId db)) = payments db"
    by (cases net) (simp_all add: deleteSelection_def Let_def delete_trigger_changes_nothing)
  moreover have "map sel_id (user_drink_selections ordered_store) = [12]"
    and "map drink_total_amount (payments ordered_store) = [200]"
    and "fst (deleteSelection Delivered 12 ordered_store) = Inr ()"
    and "user_drink_selections (snd (deleteSelection Delivered 12 ordered_store)) = []"
    and "map drink_total_amount (payments (snd (deleteSelection Delivered 12 ordered_store))) = [200]"
    by code_simp+
  ultimately show ?thesis by blast
qed

section \<open>Lists with a unique key\<close>

lemma distinct_key_filter_le1:
  "distinct (map f xs) \<Longrightarrow> length (filter (\<lambda>x. f x = k) xs) \<le> 1"
proof (induction xs)
  case Nil
  then show ?case by simp
next
  case (Cons a xs)
  show ?case
  proof (cases "f a = k")
    case True
    from Cons.prems True have "k \<notin> f ` set xs" by simp
    then have "\<forall>x\<in>set xs. f x \<noteq> k" by blast
    then have "filter (\<lambda>x. f x = k) xs = []"
      by (simp add: filter_empty_conv)
    with True show ?thesis by simp
  next
    case False
    with Cons show ?thesis by simp
  qed
qed

lemma find_Some_filter_ge1: "find P xs = Some x \<Longrightarrow> 1 \<le> length (filter P xs)"
  by (induction xs) (auto split: if_splits)

section \<open>What the payment upsert and the RSVP handlers do to the payments\<close>

lemma upsertPayment_failed_unchanged:
  "fst (upsertPayment net d db) = Inl e \<Longrightarrow> snd (upsertPayment net d db) = db"
  by (auto simp: upsertPayment_def Let_def split: if_splits option.splits)

lemma upsertPayment_payments:
  "payments (snd (upsertPayment net d db)) =
     (if net = Delivered \<and> references_spot_and_profile db (pd_spot_id d) (pd_user_id d) then
        (case find (same_payment_key d) (payments db) of
           None \<Rightarrow> payments db @ [\<lparr>pay_id = next_uuid db, pay_spot_id = pd_spot_id d,
                        pay_user_id = pd_user_id d, pay_status = pd_status d,
                        drink_total_amount = 0\<rparr>]
         | Some old \<Rightarrow> map (\<lambda>r. if same_payment_key d r then r\<lparr>pay_status := pd_status d\<rparr> else r)
                     (payments db))
      else payments db)"
  by (cases net) (auto simp: upsertPayment_def Let_def split: option.splits)

lemma same_payment_key_eq:
  "same_payment_key \<lparr>pd_spot_id = S, pd_user_id = U, pd_status = st\<rparr>
   = (\<lambda>r. pay_spot_id r = S \<and> pay_user_id r = U)"
  by (simp add: fun_eq_iff same_payment_key_def)

lemma payment_key_after_status:
  "(\<lambda>r. pay_spot_id r = S \<and> pay_user_id r = U) \<circ> (\<lambda>r. if Q r then r\<lparr>pay_status := st\<rparr> else r)
   = (\<lambda>r. pay_spot_id r = S \<and> pay_user_id r = U)"
  by (auto simp: fun_eq_iff)

lemma length_filter_toPayment:
  "length (filter (\<lambda>p. payment_user_id p = U) (map toPayment (filter (\<lambda>r. pay_spot_id r = S) rows)))
   = length (filter (\<lambda>r. pay_spot_id r = S \<and> pay_user_id r = U) rows)"
  by (induction rows) (auto simp: toPayment_def)

lemma one_payment_row:
  assumes "distinct (map pay_key (payments db))"
    and "find (\<lambda>r. pay_spot_id r = S \<and> pay_user_id r = U) (payments db) = Some row"
  shows "length (filter (\<lambda>r. pay_spot_id r = S \<and> pay_user_id r = U) (payments db)) = 1"
proof -
  have "(\<lambda>r. pay_spot_id r = S \<and> pay_user_id r = U) = (\<lambda>r. pay_key r = (S, U))"
    by (auto simp: pay_key_def)
  with distinct_key_filter_le1 [OF assms(1), of "(S, U)"] find_Some_filter_ge1 [OF assms(2)]
  show ?thesis by simp
qed

lemma updateInvitationStatus_payments:
  "payments (snd (updateInvitationStatus net i st db)) = payments db"
  by (simp add: updateInvitationStatus_def)

lemma upsertInvitation_payments:
  "payments (snd (upsertInvitation net d db)) = payments db"
  by (simp add: upsertInvitation_def Let_def split: option.splits)

lemma upsertInvitation_payments_pair:
  "upsertInvitation net d db = (r, db1) \<Longrightarrow> payments db1 = payments db"
  using upsertInvitation_payments [of net d db] by simp

lemma upsertPayment_keeps_count:
  assumes "find (\<lambda>r. pay_spot_id r = S \<and> pay_user_id r = U) (payments db) = Some row"
  shows "length (filter (\<lambda>r. pay_spot_id r = S \<and> pay_user_id r = U)
           (payments (snd (upsertPayment net \<lparr>pd_spot_id = S, pd_user_id = U, pd_status = st\<rparr> db))))
         = length (filter (\<lambda>r. pay_spot_id r = S \<and> pay_user_id r = U) (payments db))"
  using assms
  by (simp add: upsertPayment_payments same_payment_key_eq payment_key_after_status)

lemma handleRSVP_payments:
  "payments (snd (handleRSVP net1 net2 (Some U) (Some S) i st db)) = payments db
   \<or> payments (snd (handleRSVP net1 net2 (Some U) (Some S) i st db))
      = payments (snd (upsertPayment net2 \<lparr>pd_spot_id = S, pd_user_id = U, pd_status = NOT_PAID\<rparr>
          (snd (updateInvitationStatus net1 i st db))))"
  by (cases net1) (auto simp: handleRSVP_def getUserIdAsUUID_def updateInvitationStatus_def)

lemma handleCreateRSVP_payments:
  "payments (snd (handleCreateRSVP net1 net2 (Some U) (Some S) st db)) = payments db
   \<or> payments (snd (handleCreateRSVP net1 net2 (Some U) (Some S) st db))
      = payments (snd (upsertPayment net2 \<lparr>pd_spot_id = S, pd_user_id = U, pd_status = NOT_PAID\<rparr>
          (snd (upsertInvitation net1 \<lparr>id_spot_id = S, id_user_id = U, id_status = st\<rparr> db))))"
  by (auto simp: handleCreateRSVP_def getUserIdAsUUID_def
           dest: upsertInvitation_payments_pair split: prod.splits sum.splits)

section \<open>A failing payment upsert does not block the RSVP\<close>

text \<open>
  Claim C6. If the payment upsert that follows an invitation's transition to confirmed
  fails, the invitation's change to confirmed stays committed and the RSVP handler
  still completes without an alert.

  For \<^verbatim>\<open>handleRSVP\<close>: whenever the payment upsert returns an error on the store
  the invitation update left, the handler completes, the invitation with the given id
  is confirmed and every other one is as before, and the payments are untouched. For
  \<^verbatim>\<open>handleCreateRSVP\<close>: whenever the invitation upsert succeeds with store
  \<open>db1\<close> and the payment upsert fails on it, the handler completes with \<open>db1\<close>.
\<close>

theorem payment_failure_does_not_block_rsvp:
  "(fst (upsertPayment net2 \<lparr>pd_spot_id = S, pd_user_id = U, pd_status = NOT_PAID\<rparr>
          (snd (updateInvitationStatus Delivered invitationId CONFIRMED db))) = Inl e
    \<longrightarrow> fst (handleRSVP Delivered net2 (Some U) (Some S) invitationId CONFIRMED db) = Completed
      \<and> invitations (snd (handleRSVP Delivered net2 (Some U) (Some S) invitationId CONFIRMED db))
          = map (\<lambda>r. if inv_id r = invitationId then r\<lparr>inv_status := CONFIRMED\<rparr> else r)
              (invitations db)
      \<and> payments (snd (handleRSVP Delivered net2 (Some U) (Some S) invitationId CONFIRMED db))
          = payments db)
   \<and> (upsertInvitation Delivered \<lparr>id_spot_id = S, id_user_id = U, id_status = CONFIRMED\<rparr> db
        = (Inr invitation, db1)
      \<and> fst (upsertPayment net2 \<lparr>pd_spot_id = S, pd_user_id = U, pd_status = NOT_PAID\<rparr> db1) = Inl e
    \<longrightarrow> handleCreateRSVP Delivered net2 (Some U) (Some S) CONFIRMED db = (Completed, db1))"
proof (intro conjI impI)
  let ?db1 = "snd (updateInvitationStatus Delivered invitationId CONFIRMED db)"
  let ?pd = "\<lparr>pd_spot_id = S, pd_user_id = U, pd_status = NOT_PAID\<rparr>"
  assume failed: "fst (upsertPayment net2 ?pd ?db1) = Inl e"
  have run: "handleRSVP Delivered net2 (Some U) (Some S) invitationId CONFIRMED db
             = (Completed, snd (upsertPayment net2 ?pd ?db1))"
    by (simp add: handleRSVP_def getUserIdAsUUID_def updateInvitationStatus_def)
  have same: "snd (upsertPayment net2 ?pd ?db1) = ?db1"
    by (rule upsertPayment_failed_unchanged [OF failed])
  show "fst (handleRSVP Delivered net2 (Some U) (Some S) invitationId CONFIRMED db) = Completed"
    by (simp add: run)
  show "invitations (snd (handleRSVP Delivered net2 (Some U) (Some S) invitationId CONFIRMED db))
          = map (\<lambda>r. if inv_id r = invitationId then r\<lparr>inv_status := CONFIRMED\<rparr> else r)
              (invitations db)"
    by (simp add: run same) (simp add: updateInvitationStatus_def)
  show "payments (snd (handleRSVP Delivered net2 (Some U) (Some S) invitationId CONFIRMED db))
          = payments db"
    by (simp add: run same) (simp add: updateInvitationStatus_def)
next
  let ?pd = "\<lparr>pd_spot_id = S, pd_user_id = U, pd_status = NOT_PAID\<rparr>"
  assume h: "upsertInvitation Delivered \<lparr>id_spot_id = S, id_user_id = U, id_status = CONFIRMED\<rparr> db
               = (Inr invitation, db1)
             \<and> fst (upsertPayment net2 ?pd db1) = Inl e"
  then have same: "snd (upsertPayment net2 ?pd db1) = db1"
    by (simp add: upsertPayment_failed_unchanged)
  from h show "handleCreateRSVP Delivered net2 (Some U) (Some S) CONFIRMED db = (Completed, db1)"
    by (simp add: handleCreateRSVP_def getUserIdAsUUID_def same)
qed

text \<open>
  The pending invitation 10 of user 2, confirmed while the payment request is lost in
  transit: the handler completes, the invitation is confirmed, no payment row exists.
\<close>

theorem payment_failure_does_not_block_rsvp_witness:
  "fst (upsertPayment Dropped \<lparr>pd_spot_id = 1, pd_user_id = 2, pd_status = NOT_PAID\<rparr>
          (snd (updateInvitationStatus Delivered 10 CONFIRMED pending_store))) = Inl TransportFailure
   \<and> map inv_status (invitations pending_store) = [PENDING]
   \<and> fst (handleRSVP Delivered Dropped (Some 2) (Some 1) 10 CONFIRMED pending_store) = Completed
   \<and> map inv_status
        (invitations (snd (handleRSVP Delivered Dropped (Some 2) (Some 1) 10 CONFIRMED pending_store)))
      = [CONFIRMED]
   \<and> payments (snd (handleRSVP Delivered Dropped (Some 2) (Some 1) 10 CONFIRMED pending_store)) = []"
proof -
  have failed:
    "fst (upsertPayment Dropped \<lparr>pd_spot_id = 1, pd_user_id = 2, pd_status = NOT_PAID\<rparr>
            (snd (updateInvitationStatus Delivered 10 CONFIRMED pending_store))) = Inl TransportFailure"
    by code_simp
  have before: "map inv_status (invitations pending_store) = [PENDING]"
    and none: "payments pending_store = []"
    by code_simp+
  from payment_failure_does_not_block_rsvp
         [of Dropped 1 2 10 pending_store TransportFailure] failed
  have after:
    "fst (handleRSVP Delivered Dropped (Some 2) (Some 1) 10 CONFIRMED pending_store) = Completed
     \<and> invitations (snd (handleRSVP Delivered Dropped (Some 2) (Some 1) 10 CONFIRMED pending_store))
         = map (\<lambda>r. if inv_id r = 10 then r\<lparr>inv_status := CONFIRMED\<rparr> else r)
             (invitations pending_store)
     \<and> payments (snd (handleRSVP Delivered Dropped (Some 2) (Some 1) 10 CONFIRMED pending_store))
         = payments pending_store"
    by blast
  have "map inv_status (map (\<lambda>r. if inv_id r = 10 then r\<lparr>inv_status := CONFIRMED\<rparr> else r)
             (invitations pending_store)) = [CONFIRMED]"
    by code_simp
  with failed before none after show ?thesis by simp
qed

section \<open>Confirming again\<close>

text \<open>
  Claim C7. For a (spot, user) pair that already has a payment row, confirming the
  user's invitation again creates no second payment row: \<^verbatim>\<open>getPayments(spot)\<close>
  then holds exactly one row for the user.

  In a store where \<^verbatim>\<open>UNIQUE(spot_id, user_id)\<close> holds of the payments and the
  pair has a payment row, this holds after \<^verbatim>\<open>handleRSVP\<close> and after
  \<^verbatim>\<open>handleCreateRSVP\<close>, whatever the two requests' transport outcomes.
\<close>

theorem confirming_again_keeps_one_payment_row:
  assumes "distinct (map pay_key (payments db))"
    and "find (\<lambda>r. pay_spot_id r = S \<and> pay_user_id r = U) (payments db) = Some row"
  shows "(\<exists>rows. getPayments Delivered S
             (snd (handleRSVP net1 net2 (Some U) (Some S) invitationId CONFIRMED db)) = Inr rows
           \<and> length (filter (\<lambda>p. payment_user_id p = U) rows) = 1)
       \<and> (\<exists>rows. getPayments Delivered S
             (snd (handleCreateRSVP net1 net2 (Some U) (Some S) CONFIRMED db)) = Inr rows
           \<and> length (filter (\<lambda>p. payment_user_id p = U) rows) = 1)"
proof -
  let ?key = "\<lambda>r. pay_spot_id r = S \<and> pay_user_id r = U"
  let ?pd = "\<lparr>pd_spot_id = S, pd_user_id = U, pd_status = NOT_PAID\<rparr>"
  have before: "length (filter ?key (payments db)) = 1"
    by (rule one_payment_row [OF assms])
  have rows: "\<exists>rows. getPayments Delivered S db' = Inr rows
                \<and> length (filter (\<lambda>p. payment_user_id p = U) rows) = 1"
    if "length (filter ?key (payments db')) = 1" for db'
  proof -
    from that have "length (filter (\<lambda>p. payment_user_id p = U)
               (map toPayment (filter (\<lambda>r. pay_spot_id r = S) (payments db')))) = 1"
      by (simp only: length_filter_toPayment)
    moreover have "getPayments Delivered S db'
                 = Inr (map toPayment (filter (\<lambda>r. pay_spot_id r = S) (payments db')))"
      by (simp add: getPayments_def)
    ultimately show ?thesis by blast
  qed
  have found1:
    "find ?key (payments (snd (updateInvitationStatus net1 invitationId CONFIRMED db))) = Some row"
    using assms(2) by (simp add: updateInvitationStatus_payments)
  have found2:
    "find ?key (payments (snd (upsertInvitation net1
        \<lparr>id_spot_id = S, id_user_id = U, id_status = CONFIRMED\<rparr> db))) = Some row"
    using assms(2) by (simp add: upsertInvitation_payments)
  have one1: "length (filter ?key
      (payments (snd (handleRSVP net1 net2 (Some U) (Some S) invitationId CONFIRMED db)))) = 1"
    using handleRSVP_payments [of net1 net2 U S invitationId CONFIRMED db]
      upsertPayment_keeps_count [OF found1, of net2 NOT_PAID] before
    by (auto simp: updateInvitationStatus_payments)
  have one2: "length (filter ?key
      (payments (snd (handleCreateRSVP net1 net2 (Some U) (Some S) CONFIRMED db)))) = 1"
    using handleCreateRSVP_payments [of net1 net2 U S CONFIRMED db]
      upsertPayment_keeps_count [OF found2, of net2 NOT_PAID] before
    by (auto simp: upsertInvitation_payments)
  from rows [OF one1] rows [OF one2] show ?thesis by blast
qed

text \<open>User 2, whose payment 11 for spot 1 is paid, confirms invitation 10 again.\<close>

theorem confirming_again_keeps_one_payment_row_witness:
  "distinct (map pay_key (payments paid_store))
   \<and> find (\<lambda>r. pay_spot_id r = 1 \<and> pay_user_id r = 2) (payments paid_store)
       = Some \<lparr>pay_id = 11, pay_spot_id = 1, pay_user_id = 2, pay_status = PAID,
               drink_total_amount = 0\<rparr>
   \<and> (\<exists>rows. getPayments Delivered 1
          (snd (handleRSVP Delivered Delivered (Some 2) (Some 1) 10 CONFIRMED paid_store)) = Inr rows
        \<and> length (filter (\<lambda>p. payment_user_id p = 2) rows) = 1)
   \<and> (\<exists>rows. getPayments Delivered 1
          (snd (handleCreateRSVP Delivered Delivered (Some 2) (Some 1) CONFIRMED paid_store)) = Inr rows
        \<and> length (filter (\<lambda>p. payment_user_id p = 2) rows) = 1)"
proof -
  have unique: "distinct (map pay_key (payments paid_store))"
    by code_simp
  have found: "find (\<lambda>r. pay_spot_id r = 1 \<and> pay_user_id r = 2) (payments paid_store)
       = Some \<lparr>pay_id = 11, pay_spot_id = 1, pay_user_id = 2, pay_status = PAID,
               drink_total_amount = 0\<rparr>"
    by code_simp
  from confirming_again_keeps_one_payment_row [OF unique found, of Delivered Delivered 10]
    unique found
  show ?thesis by simp
qed

section \<open>Confirming resets a paid payment\<close>

text \<open>
  Claim C8. Payment status is changed only by the admin's mark-paid and mark-unpaid
  operations; when a user confirms an invitation for which a payment row exists, that
  row's status is left unchanged.

  \<^verbatim>\<open>handleRSVP\<close> upserts \<^verbatim>\<open>status: not_paid\<close> on every confirmation, and the
  upsert overwrites the status of the row it conflicts with. User 2, whose payment for
  spot 1 the admin has marked paid, confirms invitation 10 again: the payment row is
  \<^verbatim>\<open>not_paid\<close> afterwards.
\<close>

theorem confirming_resets_paid_payment:
  "map pay_status (payments paid_store) = [PAID]
   \<and> map inv_id (invitations paid_store) = [10]
   \<and> fst (handleRSVP Delivered Delivered (Some 2) (Some 1) 10 CONFIRMED paid_store) = Completed
   \<and> map pay_status
        (payments (snd (handleRSVP Delivered Delivered (Some 2) (Some 1) 10 CONFIRMED paid_store)))
      = [NOT_PAID]"
  by code_simp

section \<open>Selection lines\<close>


lemma find_filter: "find P xs = (case filter P xs of [] \<Rightarrow> None | x # ys \<Rightarrow> Some x)"
  by (induction xs) auto

lemma update_payment_drink_total_frame:
  "user_drink_selections (update_payment_drink_total OLD NEW db) = user_drink_selections db"
  "spots (update_payment_drink_total OLD NEW db) = spots db"
  "profiles (update_payment_drink_total OLD NEW db) = profiles db"
  "drink_brands (update_payment_drink_total OLD NEW db) = drink_brands db"
  "invitations (update_payment_drink_total OLD NEW db) = invitations db"
  by (simp_all add: update_payment_drink_total_def split: option.splits)



text \<open>The store accepts the row the upsert sends.\<close>

lemma upsertSelection_accepted:
  assumes "in_int4 (sd_quantity sd)" and "0 < sd_quantity sd"
    and "references_spot_and_profile db (sd_spot_id sd) (sd_user_id sd)"
    and "sd_drink_brand_id sd \<in> set (drink_brands db)"
  shows "user_drink_selections (snd (upsertSelection rounded Delivered sd db)) =
           (case find (same_selection_key sd) (user_drink_selections db) of
              None \<Rightarrow> user_drink_selections db @
                 [\<lparr>sel_id = next_uuid db, sel_spot_id = sd_spot_id sd,
                   sel_user_id = sd_user_id sd, drink_brand_id = sd_drink_brand_id sd,
                   quantity = sd_quantity sd, unit_price = sd_unit_price sd,
                   total_price = js_times rounded (sd_quantity sd) (sd_unit_price sd)\<rparr>]
            | Some old \<Rightarrow>
                 map (\<lambda>s. if same_selection_key sd s
                          then s\<lparr>quantity := sd_quantity sd, unit_price := sd_unit_price sd,
                                 total_price := js_times rounded (sd_quantity sd) (sd_unit_price sd)\<rparr>
                          else s) (user_drink_selections db))"
    and "\<exists>row. fst (upsertSelection rounded Delivered sd db) = Inr row"
  using assms
  by (auto simp: upsertSelection_def Let_def update_payment_drink_total_frame split: option.splits)





section \<open>Upserting a selection twice\<close>


text \<open>
  Products in binary64, as JavaScript computes them and JSON writes them: two at 100
  is 200, exactly, as \<open>js_times\<close> has it for whole factors; three at 3002399751580331
  is 9007199254740992, not 9007199254740993; three at 99.99 is 299.96999999999997,
  not 299.97.
\<close>

lemma two_at_whole_price:
  "binary64_times 2 100 = 200"
  by code_simp











section \<open>Updating the quantity of a line\<close>





section \<open>What the payment upsert writes\<close>

text \<open>
  Claim C10. \<^verbatim>\<open>upsertPayment\<close> writes only \<^verbatim>\<open>spot_id\<close>, \<^verbatim>\<open>user_id\<close> and
  \<^verbatim>\<open>status\<close>: when it hits an existing row of the (spot, user) key, that row's
  \<^verbatim>\<open>drink_total_amount\<close> is unchanged, and a fresh row gets the default 0.

  When a row of the key exists, the drink totals, ids and keys of all payment rows are
  as before, whatever the outcome, and on success the rows are the old ones with the
  status of the key's row replaced. When none exists and the upsert succeeds, the rows
  are the old ones followed by one new row with drink total 0. Selections, invitations
  and profiles are never touched.
\<close>

theorem upsertPayment_writes_status_only:
  "(find (same_payment_key d) (payments db) = Some old \<longrightarrow>
      map drink_total_amount (payments (snd (upsertPayment net d db)))
        = map drink_total_amount (payments db)
      \<and> map pay_id (payments (snd (upsertPayment net d db))) = map pay_id (payments db)
      \<and> map pay_key (payments (snd (upsertPayment net d db))) = map pay_key (payments db))
   \<and> (find (same_payment_key d) (payments db) = Some old
        \<and> fst (upsertPayment net d db) = Inr p \<longrightarrow>
      payments (snd (upsertPayment net d db))
        = map (\<lambda>r. if same_payment_key d r then r\<lparr>pay_status := pd_status d\<rparr> else r) (payments db))
   \<and> (find (same_payment_key d) (payments db) = None
        \<and> fst (upsertPayment net d db) = Inr p \<longrightarrow>
      payments (snd (upsertPayment net d db))
        = payments db @ [\<lparr>pay_id = next_uuid db, pay_spot_id = pd_spot_id d,
                          pay_user_id = pd_user_id d, pay_status = pd_status d,
                          drink_total_amount = 0\<rparr>])
   \<and> user_drink_selections (snd (upsertPayment net d db)) = user_drink_selections db
   \<and> invitations (snd (upsertPayment net d db)) = invitations db
   \<and> profiles (snd (upsertPayment net d db)) = profiles db"
proof (intro conjI impI)
  assume found: "find (same_payment_key d) (payments db) = Some old"
  have unchanged: "f \<circ> (\<lambda>r. if same_payment_key d r then r\<lparr>pay_status := pd_status d\<rparr> else r) = f"
    if "\<And>r st. f (r\<lparr>pay_status := st\<rparr>) = f r" for f :: "payments_row \<Rightarrow> 'a"
    using that by (auto simp: fun_eq_iff)
  show "map drink_total_amount (payments (snd (upsertPayment net d db)))
          = map drink_total_amount (payments db)"
    using found unchanged [of drink_total_amount] by (simp add: upsertPayment_payments)
  show "map pay_id (payments (snd (upsertPayment net d db))) = map pay_id (payments db)"
    using found unchanged [of pay_id] by (simp add: upsertPayment_payments)
  show "map pay_key (payments (snd (upsertPayment net d db))) = map pay_key (payments db)"
    using found unchanged [of pay_key] by (simp add: upsertPayment_payments pay_key_def)
next
  assume "find (same_payment_key d) (payments db) = Some old \<and> fst (upsertPayment net d db) = Inr p"
  then show "payments (snd (upsertPayment net d db))
        = map (\<lambda>r. if same_payment_key d r then r\<lparr>pay_status := pd_status d\<rparr> else r) (payments db)"
    by (auto simp: upsertPayment_def split: if_splits)
next
  assume "find (same_payment_key d) (payments db) = None \<and> fst (upsertPayment net d db) = Inr p"
  then show "payments (snd (upsertPayment net d db))
        = payments db @ [\<lparr>pay_id = next_uuid db, pay_spot_id = pd_spot_id d,
                          pay_user_id = pd_user_id d, pay_status = pd_status d,
                          drink_total_amount = 0\<rparr>]"
    by (auto simp: upsertPayment_def Let_def split: if_splits)
next
  show "user_drink_selections (snd (upsertPayment net d db)) = user_drink_selections db"
    by (simp add: upsertPayment_def Let_def split: option.splits)
  show "invitations (snd (upsertPayment net d db)) = invitations db"
    by (simp add: upsertPayment_def Let_def split: option.splits)
  show "profiles (snd (upsertPayment net d db)) = profiles db"
    by (simp add: upsertPayment_def Let_def split: option.splits)
qed


text \<open>
  Marking the payment of user 2 paid by an upsert keeps its drink total of 200; the
  first payment upsert for a user without a payment row stores a drink total of 0.
\<close>

theorem upsertPayment_writes_status_only_witness:
  "find (same_payment_key \<lparr>pd_spot_id = 1, pd_user_id = 2, pd_status = PAID\<rparr>) (payments ordered_store)
     = Some \<lparr>pay_id = 11, pay_spot_id = 1, pay_user_id = 2, pay_status = NOT_PAID,
             drink_total_amount = 200\<rparr>
   \<and> payments (snd (upsertPayment Delivered \<lparr>pd_spot_id = 1, pd_user_id = 2, pd_status = PAID\<rparr>
                     ordered_store))
     = [\<lparr>pay_id = 11, pay_spot_id = 1, pay_user_id = 2, pay_status = PAID,
         drink_total_amount = 200\<rparr>]
   \<and> find (same_payment_key \<lparr>pd_spot_id = 1, pd_user_id = 2, pd_status = NOT_PAID\<rparr>)
         (payments pending_store) = None
   \<and> payments (snd (upsertPayment Delivered \<lparr>pd_spot_id = 1, pd_user_id = 2, pd_status = NOT_PAID\<rparr>
                     pending_store))
     = [\<lparr>pay_id = 11, pay_spot_id = 1, pay_user_id = 2, pay_status = NOT_PAID,
         drink_total_amount = 0\<rparr>]"
proof -
  let ?paid = "\<lparr>pd_spot_id = 1, pd_user_id = 2, pd_status = PAID\<rparr>"
  let ?unpaid = "\<lparr>pd_spot_id = 1, pd_user_id = 2, pd_status = NOT_PAID\<rparr>"
  let ?old = "\<lparr>pay_id = 11, pay_spot_id = 1, pay_user_id = 2, pay_status = NOT_PAID,
               drink_total_amount = 200\<rparr>"
  have found: "find (same_payment_key ?paid) (payments ordered_store) = Some ?old"
    by code_simp
  have ok1: "fst (upsertPayment Delivered ?paid ordered_store)
             = Inr \<lparr>payment_id = 11, payment_spot_id = 1, payment_user_id = 2,
                    payment_status = PAID, payment_drink_total_amount = None\<rparr>"
    by code_simp
  have absent: "find (same_payment_key ?unpaid) (payments pending_store) = None"
    by code_simp
  have ok2: "fst (upsertPayment Delivered ?unpaid pending_store)
             = Inr \<lparr>payment_id = 11, payment_spot_id = 1, payment_user_id = 2,
                    payment_status = NOT_PAID, payment_drink_total_amount = None\<rparr>"
    by code_simp
  have "payments (snd (upsertPayment Delivered ?paid ordered_store))
        = map (\<lambda>r. if same_payment_key ?paid r then r\<lparr>pay_status := pd_status ?paid\<rparr> else r)
            (payments ordered_store)"
    using upsertPayment_writes_status_only [of ?paid ordered_store ?old Delivered] found ok1
    by blast
  moreover have "map (\<lambda>r. if same_payment_key ?paid r then r\<lparr>pay_status := pd_status ?paid\<rparr> else r)
            (payments ordered_store)
        = [\<lparr>pay_id = 11, pay_spot_id = 1, pay_user_id = 2, pay_status = PAID,
            drink_total_amount = 200\<rparr>]"
    by code_simp
  ultimately have kept: "payments (snd (upsertPayment Delivered ?paid ordered_store))
        = [\<lparr>pay_id = 11, pay_spot_id = 1, pay_user_id = 2, pay_status = PAID,
            drink_total_amount = 200\<rparr>]"
    by simp
  have fresh: "payments (snd (upsertPayment Delivered ?unpaid pending_store))
        = [\<lparr>pay_id = 11, pay_spot_id = 1, pay_user_id = 2, pay_status = NOT_PAID,
            drink_total_amount = 0\<rparr>]"
    by code_simp
  from found kept absent fresh show ?thesis by blast
qed

lemma filter_none_find_none:
  assumes "filter P xs = []" and "\<And>x. Q x \<Longrightarrow> P x"
  shows "find Q xs = None"
  using assms by (auto simp: find_None_iff filter_empty_conv)

lemma filter_toPayment:
  "filter (\<lambda>p. payment_user_id p = U) (map toPayment (filter (\<lambda>r. pay_spot_id r = S) rows))
   = map toPayment (filter (\<lambda>r. pay_spot_id r = S \<and> pay_user_id r = U) rows)"
  by (induction rows) (auto simp: toPayment_def)

lemma upsertSelection_recomputes_total:
  assumes "fst (upsertSelection rounded net sd db) = Inr row"
  shows "payments (snd (upsertSelection rounded net sd db)) =
           map (\<lambda>p. if pay_spot_id p = sd_spot_id sd \<and> pay_user_id p = sd_user_id sd
                    then p\<lparr>drink_total_amount :=
                           sum_list (map total_price
                             (filter (\<lambda>s. sel_spot_id s = sd_spot_id sd \<and> sel_user_id s = sd_user_id sd)
                                (user_drink_selections (snd (upsertSelection rounded net sd db)))))\<rparr>
                    else p)
             (payments db)"
proof (cases "find (same_selection_key sd) (user_drink_selections db)")
  case None
  with assms show ?thesis
    by (auto simp: upsertSelection_def Let_def update_payment_drink_total_def split: if_splits)
next
  case (Some old)
  then have "same_selection_key sd old"
    by (auto simp: find_Some_iff)
  then have "sel_spot_id old = sd_spot_id sd" and "sel_user_id old = sd_user_id sd"
    by (simp_all add: same_selection_key_def)
  with assms Some show ?thesis
    by (auto simp: upsertSelection_def Let_def update_payment_drink_total_def split: if_splits)
qed

lemma upsertInvitation_frame:
  "spots (snd (upsertInvitation net d db)) = spots db"
  "profiles (snd (upsertInvitation net d db)) = profiles db"
  "drink_brands (snd (upsertInvitation net d db)) = drink_brands db"
  "user_drink_selections (snd (upsertInvitation net d db)) = user_drink_selections db"
  by (simp_all add: upsertInvitation_def Let_def split: option.splits)

lemma upsertPayment_frame:
  "spots (snd (upsertPayment net d db)) = spots db"
  "profiles (snd (upsertPayment net d db)) = profiles db"
  "drink_brands (snd (upsertPayment net d db)) = drink_brands db"
  "user_drink_selections (snd (upsertPayment net d db)) = user_drink_selections db"
  by (simp_all add: upsertPayment_def Let_def split: option.splits)

section \<open>Scenario: confirm, then order\<close>

text \<open>
  The stored payment row through the scenario, from any store in which user \<open>U\<close> has
  no invitation, no payment row and no selection line for spot \<open>S\<close>: the column
  default 0 after the payment upsert, and the trigger's sum, 200, after the order.
\<close>

lemma scenario_stored_drink_total:
  fixes rounded :: "int \<Rightarrow> rat \<Rightarrow> rat"
  assumes refs: "references_spot_and_profile db S U"
    and brand: "brandX \<in> set (drink_brands db)"
    and no_invitation: "filter (\<lambda>r. inv_spot_id r = S \<and> inv_user_id r = U) (invitations db) = []"
    and no_payment: "filter (\<lambda>r. pay_spot_id r = S \<and> pay_user_id r = U) (payments db) = []"
    and no_lines: "filter (\<lambda>s. sel_spot_id s = S \<and> sel_user_id s = U) (user_drink_selections db) = []"
  defines "confirmed \<equiv>
      snd (upsertPayment Delivered \<lparr>pd_spot_id = S, pd_user_id = U, pd_status = NOT_PAID\<rparr>
        (snd (upsertInvitation Delivered
                \<lparr>id_spot_id = S, id_user_id = U, id_status = CONFIRMED\<rparr> db)))"
  defines "ordered \<equiv>
      snd (upsertSelection rounded Delivered
             \<lparr>sd_spot_id = S, sd_user_id = U, sd_drink_brand_id = brandX, sd_quantity = 2,
              sd_unit_price = 100\<rparr> confirmed)"
  shows "(\<exists>rows p. getPayments Delivered S confirmed = Inr rows
            \<and> filter (\<lambda>p. payment_user_id p = U) rows = [p]
            \<and> payment_status p = NOT_PAID \<and> payment_drink_total_amount p = None)
       \<and> map drink_total_amount
           (filter (\<lambda>r. pay_spot_id r = S \<and> pay_user_id r = U) (payments confirmed)) = [0]
       \<and> (\<exists>rows p. getPayments Delivered S ordered = Inr rows
            \<and> filter (\<lambda>p. payment_user_id p = U) rows = [p]
            \<and> payment_status p = NOT_PAID \<and> payment_drink_total_amount p = None)
       \<and> map drink_total_amount
           (filter (\<lambda>r. pay_spot_id r = S \<and> pay_user_id r = U) (payments ordered)) = [200]"
proof -
  let ?key = "\<lambda>r. pay_spot_id r = S \<and> pay_user_id r = U"
  let ?pair = "\<lambda>s. sel_spot_id s = S \<and> sel_user_id s = U"
  let ?db1 = "snd (upsertInvitation Delivered
                \<lparr>id_spot_id = S, id_user_id = U, id_status = CONFIRMED\<rparr> db)"
  let ?sd = "\<lparr>sd_spot_id = S, sd_user_id = U, sd_drink_brand_id = brandX, sd_quantity = 2,
              sd_unit_price = 100\<rparr>"
  let ?new = "\<lparr>pay_id = next_uuid ?db1, pay_spot_id = S, pay_user_id = U,
               pay_status = NOT_PAID, drink_total_amount = 0\<rparr>"
  let ?line = "\<lparr>sel_id = next_uuid confirmed, sel_spot_id = S, sel_user_id = U,
                drink_brand_id = brandX, quantity = 2, unit_price = 100, total_price = 2 * 100\<rparr>"
  have refs1: "references_spot_and_profile ?db1 S U"
    using refs by (simp add: references_spot_and_profile_def upsertInvitation_frame)
  have "find (same_payment_key \<lparr>pd_spot_id = S, pd_user_id = U, pd_status = NOT_PAID\<rparr>)
          (payments ?db1) = None"
    using no_payment by (simp add: upsertInvitation_payments same_payment_key_eq find_filter)
  with refs1 have pay2: "payments confirmed = payments db @ [?new]"
    by (simp add: confirmed_def upsertPayment_payments upsertInvitation_payments)
  with no_payment have key2: "filter ?key (payments confirmed) = [?new]"
    by simp
  have refs2: "references_spot_and_profile confirmed S U"
    using refs by (simp add: confirmed_def references_spot_and_profile_def
        upsertInvitation_frame upsertPayment_frame)
  have brand2: "brandX \<in> set (drink_brands confirmed)"
    using brand by (simp add: confirmed_def upsertInvitation_frame upsertPayment_frame)
  have lines2: "user_drink_selections confirmed = user_drink_selections db"
    by (simp add: confirmed_def upsertInvitation_frame upsertPayment_frame)
  have none: "find (same_selection_key ?sd) (user_drink_selections confirmed) = None"
    using no_lines unfolding lines2
    by (rule filter_none_find_none) (simp add: same_selection_key_def)
  have int4: "in_int4 (sd_quantity ?sd)"
    by (simp add: in_int4_def INT4_MIN_def INT4_MAX_def)
  have lines3: "user_drink_selections ordered = user_drink_selections db @ [?line]"
    using upsertSelection_accepted(1) [of ?sd confirmed] int4 refs2 brand2 none
    by (simp add: ordered_def lines2 js_times_def)
  obtain row where ok: "fst (upsertSelection rounded Delivered ?sd confirmed) = Inr row"
    using upsertSelection_accepted(2) [of ?sd confirmed] int4 refs2 brand2 by auto
  have total: "sum_list (map total_price (filter ?pair (user_drink_selections ordered))) = 200"
    using no_lines by (simp add: lines3)
  have pay3: "payments ordered =
      map (\<lambda>p. if ?key p then p\<lparr>drink_total_amount := 200\<rparr> else p) (payments confirmed)"
    using upsertSelection_recomputes_total [OF ok] total
    by (simp add: ordered_def)
  have key3: "filter ?key (payments ordered) = [?new\<lparr>drink_total_amount := 200\<rparr>]"
    using no_payment by (simp add: pay3 pay2 filter_map comp_def filter_empty_conv)
  have rows2: "getPayments Delivered S confirmed
               = Inr (map toPayment (filter (\<lambda>r. pay_spot_id r = S) (payments confirmed)))"
    and rows3: "getPayments Delivered S ordered
               = Inr (map toPayment (filter (\<lambda>r. pay_spot_id r = S) (payments ordered)))"
    by (simp_all add: getPayments_def)
  have shown2: "filter (\<lambda>p. payment_user_id p = U)
                  (map toPayment (filter (\<lambda>r. pay_spot_id r = S) (payments confirmed)))
                = [toPayment ?new]"
    by (simp only: filter_toPayment key2 list.map)
  have shown3: "filter (\<lambda>p. payment_user_id p = U)
                  (map toPayment (filter (\<lambda>r. pay_spot_id r = S) (payments ordered)))
                = [toPayment (?new\<lparr>drink_total_amount := 200\<rparr>)]"
    by (simp only: filter_toPayment key3 list.map)
  have a: "\<exists>rows p. getPayments Delivered S confirmed = Inr rows
            \<and> filter (\<lambda>p. payment_user_id p = U) rows = [p]
            \<and> payment_status p = NOT_PAID \<and> payment_drink_total_amount p = None"
    using rows2 shown2 by (intro exI [of _ "map toPayment _"] exI [of _ "toPayment ?new"])
      (simp add: toPayment_def)
  have c: "\<exists>rows p. getPayments Delivered S ordered = Inr rows
            \<and> filter (\<lambda>p. payment_user_id p = U) rows = [p]
            \<and> payment_status p = NOT_PAID \<and> payment_drink_total_amount p = None"
    using rows3 shown3
    by (intro exI [of _ "map toPayment _"] exI [of _ "toPayment (?new\<lparr>drink_total_amount := 200\<rparr>)"])
      (simp add: toPayment_def)
  from a c key2 key3 show ?thesis by simp
qed

text \<open>
  Claim C2. User \<open>U\<close> has no invitation for spot \<open>S\<close>. After
  \<^verbatim>\<open>upsertInvitation(S, U, confirmed)\<close> and one \<^verbatim>\<open>upsertPayment(S, U, not_paid)\<close>,
  \<^verbatim>\<open>getPayments(S)\<close> returns exactly one row for \<open>U\<close>, with status \<^verbatim>\<open>not_paid\<close>
  and \<^verbatim>\<open>drink_total_amount\<close> 0; after \<^verbatim>\<open>upsertSelection(S, U, brandX, 2, 100)\<close>
  the row \<^verbatim>\<open>getPayments(S)\<close> returns for \<open>U\<close> shows \<^verbatim>\<open>drink_total_amount\<close> 200.

  The code does not do this. On the store with spot 1, user 2 and brand 3 the stored
  payment row holds 0 after the two upserts and 200 after the order, and
  \<^verbatim>\<open>getPayments(1)\<close> returns one row for user 2 with status \<^verbatim>\<open>not_paid\<close> both
  times, but the returned row has no \<^verbatim>\<open>drink_total_amount\<close>: the service selects
  the column with \<^verbatim>\<open>*\<close> and then builds each \<^verbatim>\<open>Payment\<close> from \<^verbatim>\<open>id\<close>,
  \<^verbatim>\<open>spot_id\<close>, \<^verbatim>\<open>user_id\<close>, \<^verbatim>\<open>profiles\<close> and \<^verbatim>\<open>status\<close> only, so no row it
  ever returns carries the field that the \<^verbatim>\<open>Payment\<close> interface declares.
\<close>

theorem getPayments_drops_drink_total:
  "map drink_total_amount (payments confirmed_store) = [0]
   \<and> getPayments Delivered 1 confirmed_store =
       Inr [\<lparr>payment_id = 11, payment_spot_id = 1, payment_user_id = 2,
             payment_status = NOT_PAID, payment_drink_total_amount = None\<rparr>]
   \<and> map drink_total_amount (payments ordered_store) = [200]
   \<and> getPayments Delivered 1 ordered_store =
       Inr [\<lparr>payment_id = 11, payment_spot_id = 1, payment_user_id = 2,
             payment_status = NOT_PAID, payment_drink_total_amount = None\<rparr>]
   \<and> getPayments Delivered S db
       = Inr (map toPayment (filter (\<lambda>r. pay_spot_id r = S) (payments db)))
   \<and> payment_drink_total_amount (toPayment r) = None"
proof -
  have "map drink_total_amount (payments confirmed_store) = [0]"
    and "getPayments Delivered 1 confirmed_store =
       Inr [\<lparr>payment_id = 11, payment_spot_id = 1, payment_user_id = 2,
             payment_status = NOT_PAID, payment_drink_total_amount = None\<rparr>]"
    and "map drink_total_amount (payments ordered_store) = [200]"
    and "getPayments Delivered 1 ordered_store =
       Inr [\<lparr>payment_id = 11, payment_spot_id = 1, payment_user_id = 2,
             payment_status = NOT_PAID, payment_drink_total_amount = None\<rparr>]"
    by code_simp+
  moreover have "getPayments Delivered S db
       = Inr (map toPayment (filter (\<lambda>r. pay_spot_id r = S) (payments db)))"
    by (simp add: getPayments_def)
  moreover have "payment_drink_total_amount (toPayment r) = None"
    by (simp add: toPayment_def)
  ultimately show ?thesis
    by blast
qed

section \<open>Attendance counted once\<close>

text \<open>
  The claim C3 as stated, for every mission count \<open>N\<close>, fails at the largest
  \<^verbatim>\<open>INTEGER\<close>: the trigger's increment is out of range, both calls fail and the
  count stays where it was.
\<close>

theorem mission_count_at_integer_maximum:
  "mission_count_of veteran_store 2 = Some 2147483647
   \<and> attendance veteran_store = []
   \<and> fst (upsertAttendance Delivered \<lparr>ad_spot_id = 1, ad_user_id = 2, ad_attended = True\<rparr>
            veteran_store) = Inl NumericValueOutOfRange
   \<and> mission_count_of
        (snd (upsertAttendance Delivered \<lparr>ad_spot_id = 1, ad_user_id = 2, ad_attended = True\<rparr>
           (snd (upsertAttendance Delivered \<lparr>ad_spot_id = 1, ad_user_id = 2, ad_attended = True\<rparr>
              veteran_store)))) 2 = Some 2147483647"
  by code_simp

lemma mission_count_of_filter:
  "filter (\<lambda>p. prof_id p = U) (profiles db) = [p] \<Longrightarrow> mission_count_of db U = mission_count p"
  by (simp add: mission_count_of_def find_filter)

lemma same_attendance_key_eq:
  "same_attendance_key \<lparr>ad_spot_id = S, ad_user_id = U, ad_attended = a\<rparr>
   = (\<lambda>r. att_spot_id r = S \<and> att_user_id r = U)"
  by (simp add: fun_eq_iff same_attendance_key_def)

lemma first_attendance:
  assumes spot: "S \<in> set (spots db)"
    and profile: "filter (\<lambda>p. prof_id p = U) (profiles db) = [p]"
    and count: "mission_count p = Some N"
    and none: "filter (\<lambda>r. att_spot_id r = S \<and> att_user_id r = U) (attendance db) = []"
    and stored: "in_int4 N"
    and fits: "N < INT4_MAX"
  shows "upsertAttendance Delivered \<lparr>ad_spot_id = S, ad_user_id = U, ad_attended = True\<rparr> db =
           (Inr \<lparr>att_id = next_uuid db, att_spot_id = S, att_user_id = U, attended = Some True\<rparr>,
            db\<lparr>attendance := attendance db @
                   [\<lparr>att_id = next_uuid db, att_spot_id = S, att_user_id = U, attended = Some True\<rparr>],
               next_uuid := Suc (next_uuid db),
               profiles := map (\<lambda>p. if prof_id p = U
                    then p\<lparr>mission_count :=
                            Some ((case mission_count p of None \<Rightarrow> 0 | Some c \<Rightarrow> c) + 1)\<rparr>
                    else p) (profiles db)\<rparr>)"
proof -
  have user: "U \<in> set (map prof_id (profiles db))"
  proof -
    from profile have "p \<in> set (filter (\<lambda>p. prof_id p = U) (profiles db))" by simp
    then show ?thesis by auto
  qed
  have absent: "find (\<lambda>r. att_spot_id r = S \<and> att_user_id r = U) (attendance db) = None"
    using none by (simp add: find_filter)
  have range: "in_int4 (N + 1)"
    using stored fits by (simp add: in_int4_def)
  show ?thesis
    using spot user absent range
    by (simp add: upsertAttendance_def same_attendance_key_eq references_spot_and_profile_def
        Let_def trigger_update_mission_count_def update_mission_count_on_attendance_def
        profile count)
qed


lemma filter_profile_after_bump:
  "filter (\<lambda>p. prof_id p = U)
     (map (\<lambda>p. if prof_id p = U then p\<lparr>mission_count := f p\<rparr> else p) ps)
   = map (\<lambda>p. p\<lparr>mission_count := f p\<rparr>) (filter (\<lambda>p. prof_id p = U) ps)"
  by (induction ps) auto

lemma profile_ids_after_bump:
  "map prof_id (map (\<lambda>p. if Q p then p\<lparr>mission_count := f p\<rparr> else p) ps) = map prof_id ps"
  by (induction ps) auto

lemma repeated_attendance:
  assumes spot: "S \<in> set (spots db)"
    and user: "U \<in> set (map prof_id (profiles db))"
    and recorded: "find (\<lambda>r. att_spot_id r = S \<and> att_user_id r = U) (attendance db) = Some old"
    and was: "attended old = Some True"
  shows "fst (upsertAttendance Delivered \<lparr>ad_spot_id = S, ad_user_id = U, ad_attended = True\<rparr> db)
           = Inr old"
    and "profiles (snd (upsertAttendance Delivered
                          \<lparr>ad_spot_id = S, ad_user_id = U, ad_attended = True\<rparr> db)) = profiles db"
  using assms
  by (simp_all add: upsertAttendance_def same_attendance_key_eq references_spot_and_profile_def
        Let_def trigger_update_mission_count_def update_mission_count_on_attendance_def)

text \<open>
  Claim C3, as amended. For a user whose profile has \<^verbatim>\<open>mission_count = N\<close> with
  \<open>N < 2147483647\<close>, and who has no attendance row for an existing spot, calling
  \<^verbatim>\<open>upsertAttendance(spot, user, true)\<close> twice succeeds twice and leaves the count
  at \<open>N + 1\<close>, as it is after the first call: the insert fires the increment, the
  update of the row that already says true does not.
\<close>

theorem attendance_twice_counts_once:
  assumes spot: "S \<in> set (spots db)"
    and profile: "filter (\<lambda>p. prof_id p = U) (profiles db) = [p]"
    and count: "mission_count p = Some N"
    and none: "filter (\<lambda>r. att_spot_id r = S \<and> att_user_id r = U) (attendance db) = []"
    and stored: "in_int4 N"
    and fits: "N < INT4_MAX"
  shows "mission_count_of db U = Some N
       \<and> (\<exists>row. fst (upsertAttendance Delivered
                        \<lparr>ad_spot_id = S, ad_user_id = U, ad_attended = True\<rparr> db) = Inr row)
       \<and> mission_count_of
           (snd (upsertAttendance Delivered \<lparr>ad_spot_id = S, ad_user_id = U, ad_attended = True\<rparr> db))
           U = Some (N + 1)
       \<and> (\<exists>row. fst (upsertAttendance Delivered
                        \<lparr>ad_spot_id = S, ad_user_id = U, ad_attended = True\<rparr>
                        (snd (upsertAttendance Delivered
                               \<lparr>ad_spot_id = S, ad_user_id = U, ad_attended = True\<rparr> db)))
                 = Inr row)
       \<and> mission_count_of
           (snd (upsertAttendance Delivered \<lparr>ad_spot_id = S, ad_user_id = U, ad_attended = True\<rparr>
              (snd (upsertAttendance Delivered
                     \<lparr>ad_spot_id = S, ad_user_id = U, ad_attended = True\<rparr> db))))
           U = Some (N + 1)"
proof -
  let ?d = "\<lparr>ad_spot_id = S, ad_user_id = U, ad_attended = True\<rparr>"
  let ?row = "\<lparr>att_id = next_uuid db, att_spot_id = S, att_user_id = U, attended = Some True\<rparr>"
  let ?bump = "\<lambda>p. if prof_id p = U
                    then p\<lparr>mission_count :=
                            Some ((case mission_count p of None \<Rightarrow> 0 | Some c \<Rightarrow> c) + 1)\<rparr>
                    else p"
  let ?db1 = "snd (upsertAttendance Delivered ?d db)"
  let ?db2 = "snd (upsertAttendance Delivered ?d ?db1)"
  note first = first_attendance [OF assms]
  have id_U: "prof_id p = U"
  proof -
    from profile have "p \<in> set (filter (\<lambda>p. prof_id p = U) (profiles db))" by simp
    then show ?thesis by simp
  qed
  have before: "mission_count_of db U = Some N"
    using mission_count_of_filter [OF profile] count by simp
  have profiles1: "profiles ?db1 = map ?bump (profiles db)"
    and attendance1: "attendance ?db1 = attendance db @ [?row]"
    and spots1: "spots ?db1 = spots db"
    and ok1: "fst (upsertAttendance Delivered ?d db) = Inr ?row"
    by (simp_all add: first)
  have "filter (\<lambda>p. prof_id p = U) (profiles ?db1)
        = map (\<lambda>p. p\<lparr>mission_count :=
                        Some ((case mission_count p of None \<Rightarrow> 0 | Some c \<Rightarrow> c) + 1)\<rparr>)
            (filter (\<lambda>p. prof_id p = U) (profiles db))"
    unfolding profiles1 by (rule filter_profile_after_bump)
  then have profile1:
    "filter (\<lambda>p. prof_id p = U) (profiles ?db1) = [p\<lparr>mission_count := Some (N + 1)\<rparr>]"
    by (simp add: profile count)
  then have after1: "mission_count_of ?db1 U = Some (N + 1)"
    using mission_count_of_filter [OF profile1] by simp
  have "p \<in> set (filter (\<lambda>p. prof_id p = U) (profiles db))"
    by (simp add: profile)
  then have "U \<in> set (map prof_id (profiles db))"
    by auto
  then have user1: "U \<in> set (map prof_id (profiles ?db1))"
    unfolding profiles1 by (simp only: profile_ids_after_bump)
  have recorded: "find (\<lambda>r. att_spot_id r = S \<and> att_user_id r = U) (attendance ?db1) = Some ?row"
    using none by (simp add: attendance1 find_filter)
  note second = repeated_attendance [of S ?db1 U ?row, OF _ user1 recorded]
  have ok2: "fst (upsertAttendance Delivered ?d ?db1) = Inr ?row"
    using second(1) spot by (simp add: spots1)
  have "profiles ?db2 = profiles ?db1"
    using second(2) spot by (simp add: spots1)
  then have after2: "mission_count_of ?db2 U = Some (N + 1)"
    using after1 by (simp add: mission_count_of_def)
  from before ok1 after1 ok2 after2 show ?thesis by blast
qed


text \<open>User 2 with five missions attends spot 1: six after the first call, six after the second.\<close>

theorem attendance_twice_counts_once_witness:
  "1 \<in> set (spots fresh_store)
   \<and> filter (\<lambda>p. prof_id p = 2) (profiles fresh_store) = [\<lparr>prof_id = 2, mission_count = Some 5\<rparr>]
   \<and> filter (\<lambda>r. att_spot_id r = 1 \<and> att_user_id r = 2) (attendance fresh_store) = []
   \<and> in_int4 5 \<and> 5 < INT4_MAX
   \<and> mission_count_of
        (snd (upsertAttendance Delivered \<lparr>ad_spot_id = 1, ad_user_id = 2, ad_attended = True\<rparr>
           fresh_store)) 2 = Some 6
   \<and> mission_count_of
        (snd (upsertAttendance Delivered \<lparr>ad_spot_id = 1, ad_user_id = 2, ad_attended = True\<rparr>
           (snd (upsertAttendance Delivered \<lparr>ad_spot_id = 1, ad_user_id = 2, ad_attended = True\<rparr>
              fresh_store)))) 2 = Some 6"
proof -
  have spot: "1 \<in> set (spots fresh_store)"
    and profile: "filter (\<lambda>p. prof_id p = 2) (profiles fresh_store)
                  = [\<lparr>prof_id = 2, mission_count = Some 5\<rparr>]"
    and none: "filter (\<lambda>r. att_spot_id r = 1 \<and> att_user_id r = 2) (attendance fresh_store) = []"
    and stored: "in_int4 5"
    and fits: "5 < INT4_MAX"
    by code_simp+
  have count: "mission_count \<lparr>prof_id = 2, mission_count = Some 5\<rparr> = Some 5"
    by simp
  from attendance_twice_counts_once [OF spot profile count none stored fits]
    spot profile none stored fits
  show ?thesis by simp
qed


section \<open>The vote toggle, twice\<close>

lemma toDrink_view:
  "d_votes (toDrink row) = (case votes row of None \<Rightarrow> 0 | Some v \<Rightarrow> v)"
  "d_voted_by (toDrink row) = (case voted_by row of None \<Rightarrow> [] | Some l \<Rightarrow> l)"
  by (simp_all add: toDrink_def)

lemma single_row: "rows = [row] \<Longrightarrow> single rows = Inr row"
  by (simp add: single_def)

lemma vote_added:
  assumes "filter (\<lambda>r. drink_id r = D) (drinks db) = [row]"
    and "U \<notin> set (d_voted_by (toDrink row))"
    and "in_int4 (d_votes (toDrink row) + 1)"
  shows "snd (voteForDrink Delivered Delivered D U db) =
          db\<lparr>drinks := map (\<lambda>r. if drink_id r = D
                 then r\<lparr>votes := Some (d_votes (toDrink row) + 1),
                        voted_by := Some (d_voted_by (toDrink row) @ [U])\<rparr>
                 else r) (drinks db)\<rparr>"
  unfolding voteForDrink_def single_row [OF assms(1)] toDrink_view
  using assms(2,3) unfolding toDrink_view
  by (simp only: Let_def transport.simps if_False if_True sum.case snd_conv)

lemma vote_removed:
  assumes "filter (\<lambda>r. drink_id r = D) (drinks db) = [row]"
    and "U \<in> set (d_voted_by (toDrink row))"
    and "in_int4 (max 0 (d_votes (toDrink row) - 1))"
  shows "snd (voteForDrink Delivered Delivered D U db) =
          db\<lparr>drinks := map (\<lambda>r. if drink_id r = D
                 then r\<lparr>votes := Some (max 0 (d_votes (toDrink row) - 1)),
                        voted_by := Some (filter (\<lambda>i. i \<noteq> U) (d_voted_by (toDrink row)))\<rparr>
                 else r) (drinks db)\<rparr>"
  unfolding voteForDrink_def single_row [OF assms(1)] toDrink_view
  using assms(2,3) unfolding toDrink_view
  by (simp only: Let_def transport.simps if_False if_True sum.case snd_conv)

lemma vote_rejected:
  assumes "filter (\<lambda>r. drink_id r = D) (drinks db) = [row]"
    and "\<not> in_int4 (if U \<in> set (d_voted_by (toDrink row))
                     then max 0 (d_votes (toDrink row) - 1) else d_votes (toDrink row) + 1)"
  shows "snd (voteForDrink Delivered Delivered D U db) = db"
  unfolding voteForDrink_def single_row [OF assms(1)] toDrink_view
  using assms(2) unfolding toDrink_view
  by (simp only: Let_def transport.simps if_False if_True sum.case snd_conv split: if_splits)

lemma filter_drink_after_vote:
  "filter (\<lambda>r. drink_id r = D)
     (map (\<lambda>r. if drink_id r = D then r\<lparr>votes := a, voted_by := b\<rparr> else r) xs)
   = map (\<lambda>r. r\<lparr>votes := a, voted_by := b\<rparr>) (filter (\<lambda>r. drink_id r = D) xs)"
  by (induction xs) auto


lemma toDrink_written:
  "d_votes (toDrink (r\<lparr>votes := Some a, voted_by := Some b\<rparr>)) = a"
  "d_voted_by (toDrink (r\<lparr>votes := Some a, voted_by := Some b\<rparr>)) = b"
  by (simp_all add: toDrink_def)

lemma second_vote_overrides:
  "map (\<lambda>r. if drink_id r = D then r\<lparr>votes := a2, voted_by := b2\<rparr> else r)
     (map (\<lambda>r. if drink_id r = D then r\<lparr>votes := a1, voted_by := b1\<rparr> else r) xs)
   = map (\<lambda>r. if drink_id r = D then r\<lparr>votes := a2, voted_by := b2\<rparr> else r) xs"
  by (induction xs) auto

lemma view_after_vote:
  assumes "filter (\<lambda>r. drink_id r = D) xs = [row]"
    and "g (row\<lparr>votes := a, voted_by := b\<rparr>) = g row"
  shows "map g (map (\<lambda>r. if drink_id r = D then r\<lparr>votes := a, voted_by := b\<rparr> else r) xs)
         = map g xs"
proof -
  have "r = row" if "r \<in> set xs" and "drink_id r = D" for r
  proof -
    from that have "r \<in> set (filter (\<lambda>r. drink_id r = D) xs)" by simp
    then show ?thesis by (simp add: assms(1))
  qed
  with assms(2) show ?thesis by (auto simp: map_eq_conv)
qed

text \<open>
  Claim C5, as amended. For every stored drink \<open>d\<close> and user \<open>u\<close> such that the
  votes counter (a stored \<^verbatim>\<open>INTEGER\<close>, null read as 0) is at least 1 when \<open>u\<close> is
  among the voters and at least 0 when not, applying \<^verbatim>\<open>voteForDrink(d, u)\<close> twice
  returns every drink to the votes count and the voter set it had. (When the counter
  is at the \<^verbatim>\<open>INTEGER\<close> maximum and \<open>u\<close> has not voted, both calls are rejected and
  nothing changes.)
\<close>

theorem vote_twice_restores:
  assumes drink: "filter (\<lambda>r. drink_id r = D) (drinks db) = [row]"
    and stored: "in_int4 (d_votes (toDrink row))"
    and counter: "(if U \<in> set (d_voted_by (toDrink row)) then 1 else 0) \<le> d_votes (toDrink row)"
  shows "map (\<lambda>r. d_votes (toDrink r))
           (drinks (snd (voteForDrink Delivered Delivered D U
                      (snd (voteForDrink Delivered Delivered D U db)))))
         = map (\<lambda>r. d_votes (toDrink r)) (drinks db)
       \<and> map (\<lambda>r. set (d_voted_by (toDrink r)))
           (drinks (snd (voteForDrink Delivered Delivered D U
                      (snd (voteForDrink Delivered Delivered D U db)))))
         = map (\<lambda>r. set (d_voted_by (toDrink r))) (drinks db)"
proof -
  let ?v = "d_votes (toDrink row)"
  let ?vb = "d_voted_by (toDrink row)"
  let ?db1 = "snd (voteForDrink Delivered Delivered D U db)"
  let ?db2 = "snd (voteForDrink Delivered Delivered D U ?db1)"
  show ?thesis
  proof (cases "U \<in> set ?vb")
    case False
    with counter have nonneg: "0 \<le> ?v" by simp
    show ?thesis
    proof (cases "in_int4 (?v + 1)")
      case True
      let ?row1 = "row\<lparr>votes := Some (?v + 1), voted_by := Some (?vb @ [U])\<rparr>"
      have db1: "?db1 = db\<lparr>drinks := map (\<lambda>r. if drink_id r = D
                 then r\<lparr>votes := Some (?v + 1), voted_by := Some (?vb @ [U])\<rparr>
                 else r) (drinks db)\<rparr>"
        by (rule vote_added [OF drink False True])
      have drink1: "filter (\<lambda>r. drink_id r = D) (drinks ?db1) = [?row1]"
        by (simp add: db1 filter_drink_after_vote drink)
      have voted1: "U \<in> set (d_voted_by (toDrink ?row1))"
        by (simp add: toDrink_written)
      have range1: "in_int4 (max 0 (d_votes (toDrink ?row1) - 1))"
        using stored nonneg by (simp add: toDrink_written)
      have restored: "max 0 (d_votes (toDrink ?row1) - 1) = ?v"
        "filter (\<lambda>i. i \<noteq> U) (d_voted_by (toDrink ?row1)) = ?vb"
        using False nonneg by (auto simp: toDrink_written filter_id_conv)
      have "drinks ?db2 = map (\<lambda>r. if drink_id r = D
                 then r\<lparr>votes := Some ?v, voted_by := Some ?vb\<rparr> else r) (drinks ?db1)"
        unfolding vote_removed [OF drink1 voted1 range1] restored by simp
      also have "drinks ?db1 = map (\<lambda>r. if drink_id r = D
                 then r\<lparr>votes := Some (?v + 1), voted_by := Some (?vb @ [U])\<rparr>
                 else r) (drinks db)"
        unfolding db1 by simp
      finally have db2: "drinks ?db2 = map (\<lambda>r. if drink_id r = D
                 then r\<lparr>votes := Some ?v, voted_by := Some ?vb\<rparr> else r) (drinks db)"
        by (simp only: second_vote_overrides)
      show ?thesis
        unfolding db2
        by (intro conjI view_after_vote [OF drink]) (simp_all add: toDrink_written)
    next
      case rejected: False
      then have "?db1 = db"
        using False by (intro vote_rejected [OF drink]) simp
      moreover from this have "?db2 = db"
        using False rejected by (simp add: vote_rejected [OF drink])
      ultimately show ?thesis by simp
    qed
  next
    case True
    with counter have positive: "1 \<le> ?v" by simp
    let ?row1 = "row\<lparr>votes := Some (max 0 (?v - 1)),
                     voted_by := Some (filter (\<lambda>i. i \<noteq> U) ?vb)\<rparr>"
    have range: "in_int4 (max 0 (?v - 1))"
      using stored positive by (simp add: in_int4_def INT4_MIN_def)
    have db1: "?db1 = db\<lparr>drinks := map (\<lambda>r. if drink_id r = D
                 then r\<lparr>votes := Some (max 0 (?v - 1)),
                        voted_by := Some (filter (\<lambda>i. i \<noteq> U) ?vb)\<rparr>
                 else r) (drinks db)\<rparr>"
      by (rule vote_removed [OF drink True range])
    have drink1: "filter (\<lambda>r. drink_id r = D) (drinks ?db1) = [?row1]"
      by (simp add: db1 filter_drink_after_vote drink)
    have voted1: "U \<notin> set (d_voted_by (toDrink ?row1))"
      by (simp add: toDrink_written)
    have range1: "in_int4 (d_votes (toDrink ?row1) + 1)"
      using stored positive by (simp add: toDrink_written)
    have restored: "d_votes (toDrink ?row1) + 1 = ?v"
      "d_voted_by (toDrink ?row1) @ [U] = filter (\<lambda>i. i \<noteq> U) ?vb @ [U]"
      using positive by (simp_all add: toDrink_written)
    have "drinks ?db2 = map (\<lambda>r. if drink_id r = D
                 then r\<lparr>votes := Some ?v, voted_by := Some (filter (\<lambda>i. i \<noteq> U) ?vb @ [U])\<rparr>
                 else r) (drinks ?db1)"
      unfolding vote_added [OF drink1 voted1 range1] restored by simp
    also have "drinks ?db1 = map (\<lambda>r. if drink_id r = D
                 then r\<lparr>votes := Some (max 0 (?v - 1)),
                        voted_by := Some (filter (\<lambda>i. i \<noteq> U) ?vb)\<rparr>
                 else r) (drinks db)"
      unfolding db1 by simp
    finally have db2: "drinks ?db2 = map (\<lambda>r. if drink_id r = D
                 then r\<lparr>votes := Some ?v, voted_by := Some (filter (\<lambda>i. i \<noteq> U) ?vb @ [U])\<rparr>
                 else r) (drinks db)"
      by (simp only: second_vote_overrides)
    have voters: "set (filter (\<lambda>i. i \<noteq> U) ?vb @ [U]) = set ?vb"
      using True by auto
    have "d_votes (toDrink (row\<lparr>votes := Some ?v,
              voted_by := Some (filter (\<lambda>i. i \<noteq> U) ?vb @ [U])\<rparr>)) = ?v"
      and "set (d_voted_by (toDrink (row\<lparr>votes := Some ?v,
              voted_by := Some (filter (\<lambda>i. i \<noteq> U) ?vb @ [U])\<rparr>))) = set ?vb"
      by (simp_all only: toDrink_written voters)
    then show ?thesis
      unfolding db2
      by (intro conjI view_after_vote [OF drink])
  qed
qed

text \<open>
  The claim C5 as stated, for every drink, fails on a row whose counter is 0 although
  the user is among the voters: removing the vote floors the counter at 0, voting
  again raises it to 1.
\<close>

theorem vote_twice_on_floored_counter:
  "map votes (drinks stale_vote_store) = [Some 0]
   \<and> map voted_by (drinks stale_vote_store) = [Some [2]]
   \<and> map votes (drinks (snd (voteForDrink Delivered Delivered 20 2 stale_vote_store))) = [Some 0]
   \<and> map votes
        (drinks (snd (voteForDrink Delivered Delivered 20 2
                   (snd (voteForDrink Delivered Delivered 20 2 stale_vote_store))))) = [Some 1]
   \<and> map voted_by
        (drinks (snd (voteForDrink Delivered Delivered 20 2
                   (snd (voteForDrink Delivered Delivered 20 2 stale_vote_store))))) = [Some [2]]"
  by code_simp

text \<open>
  User 2 votes twice for the drink just suggested for spot 1 (id 10, no votes): one
  vote after the first call, none after the second.
\<close>

theorem vote_twice_restores_witness:
  "filter (\<lambda>r. drink_id r = 10) (drinks suggested_store)
     = [\<lparr>drink_id = 10, drink_spot_id = 1, votes = Some 0, suggested_by = 2, voted_by = Some []\<rparr>]
   \<and> map (\<lambda>r. d_votes (toDrink r))
         (drinks (snd (voteForDrink Delivered Delivered 10 2 suggested_store))) = [1]
   \<and> map (\<lambda>r. d_voted_by (toDrink r))
         (drinks (snd (voteForDrink Delivered Delivered 10 2 suggested_store))) = [[2]]
   \<and> map (\<lambda>r. d_votes (toDrink r))
         (drinks (snd (voteForDrink Delivered Delivered 10 2
                    (snd (voteForDrink Delivered Delivered 10 2 suggested_store))))) = [0]
   \<and> map (\<lambda>r. set (d_voted_by (toDrink r)))
         (drinks (snd (voteForDrink Delivered Delivered 10 2
                    (snd (voteForDrink Delivered Delivered 10 2 suggested_store))))) = [{}]"
proof -
  let ?row = "\<lparr>drink_id = 10, drink_spot_id = 1, votes = Some 0, suggested_by = 2,
               voted_by = Some []\<rparr>"
  have rows: "drinks suggested_store = [?row]"
    by code_simp
  have drink: "filter (\<lambda>r. drink_id r = 10) (drinks suggested_store) = [?row]"
    by (simp add: rows)
  have stored: "in_int4 (d_votes (toDrink ?row))"
    by code_simp
  have counter: "(if 2 \<in> set (d_voted_by (toDrink ?row)) then 1 else 0) \<le> d_votes (toDrink ?row)"
    by (simp add: toDrink_def)
  have once: "map (\<lambda>r. d_votes (toDrink r))
         (drinks (snd (voteForDrink Delivered Delivered 10 2 suggested_store))) = [1]"
    "map (\<lambda>r. d_voted_by (toDrink r))
         (drinks (snd (voteForDrink Delivered Delivered 10 2 suggested_store))) = [[2]]"
    by code_simp+
  from vote_twice_restores [OF drink stored counter] drink once
  show ?thesis by (simp add: rows toDrink_def)
qed


subsection \<open>The rows the services write\<close>

text \<open>
  \<^verbatim>\<open>createDrink\<close> and \<^verbatim>\<open>voteForDrink\<close> keep the counter equal to the number of
  voters, and on such a row the counter is large enough for the toggle to be
  self-inverse.
\<close>

lemma single_in_rows: "single rows = Inr r \<Longrightarrow> r \<in> set rows"
  by (cases rows rule: list.exhaust [case_product list.exhaust])
     (auto simp: single_def split: list.splits)

lemma length_without_voter:
  assumes "distinct vb" and "U \<in> set vb"
  shows "int (length (filter (\<lambda>i. i \<noteq> U) vb)) = max 0 (int (length vb) - 1)"
proof -
  from assms have "Suc (length (filter (\<lambda>i. i \<noteq> U) vb)) = length vb"
  proof (induction vb)
    case Nil
    then show ?case by simp
  next
    case (Cons a vb)
    show ?case
    proof (cases "a = U")
      case True
      with Cons.prems have "\<forall>i\<in>set vb. i \<noteq> U" by auto
      then have "filter (\<lambda>i. i \<noteq> U) vb = vb" by (simp add: filter_id_conv)
      with True show ?thesis by simp
    next
      case False
      with Cons show ?thesis by simp
    qed
  qed
  then show ?thesis by linarith
qed

lemma written_row_matches:
  assumes "list_all counter_matches_voters xs"
    and "v = int (length vb)" and "distinct vb"
  shows "list_all counter_matches_voters
           (map (\<lambda>r. if drink_id r = D then r\<lparr>votes := Some v, voted_by := Some vb\<rparr> else r) xs)"
  using assms
  by (induction xs) (auto simp: counter_matches_voters_def toDrink_written)

lemma createDrink_counter_matches_voters:
  assumes "list_all counter_matches_voters (drinks db)"
  shows "list_all counter_matches_voters (drinks (snd (createDrink net spotId suggestedBy db)))"
  using assms
  by (simp add: createDrink_def Let_def counter_matches_voters_def toDrink_def)

lemma voteForDrink_counter_matches_voters:
  assumes "list_all counter_matches_voters (drinks db)"
  shows "list_all counter_matches_voters (drinks (snd (voteForDrink net1 net2 D U db)))"
proof (cases "single (filter (\<lambda>r. drink_id r = D) (drinks db))")
  case (Inl e)
  with assms show ?thesis
    by (simp add: voteForDrink_def)
next
  case (Inr drink)
  then have "drink \<in> set (drinks db)"
    using single_in_rows by fastforce
  with assms have ok: "counter_matches_voters drink"
    by (simp add: list_all_iff)
  let ?vb = "d_voted_by (toDrink drink)"
  from ok have count: "d_votes (toDrink drink) = int (length ?vb)" and dist: "distinct ?vb"
    by (simp_all add: counter_matches_voters_def)
  show ?thesis
  proof (cases "U \<in> set ?vb")
    case True
    have "list_all counter_matches_voters
            (map (\<lambda>r. if drink_id r = D
                      then r\<lparr>votes := Some (max 0 (d_votes (toDrink drink) - 1)),
                             voted_by := Some (filter (\<lambda>i. i \<noteq> U) ?vb)\<rparr>
                      else r) (drinks db))"
      using assms length_without_voter [OF dist True] dist
      by (intro written_row_matches) (simp_all add: count)
    with assms True show ?thesis
      unfolding voteForDrink_def Inr toDrink_view [symmetric]
      by (simp add: Let_def)
  next
    case False
    have "list_all counter_matches_voters
            (map (\<lambda>r. if drink_id r = D
                      then r\<lparr>votes := Some (d_votes (toDrink drink) + 1),
                             voted_by := Some (?vb @ [U])\<rparr>
                      else r) (drinks db))"
      using assms False dist
      by (intro written_row_matches) (simp_all add: count)
    with assms False show ?thesis
      unfolding voteForDrink_def Inr toDrink_view [symmetric]
      by (simp add: Let_def)
  qed
qed

lemma counter_matches_voters_enough:
  assumes "counter_matches_voters row"
  shows "(if U \<in> set (d_voted_by (toDrink row)) then 1 else 0) \<le> d_votes (toDrink row)"
proof (cases "d_voted_by (toDrink row)")
  case Nil
  with assms show ?thesis by (simp add: counter_matches_voters_def)
next
  case (Cons a vb)
  with assms show ?thesis by (simp add: counter_matches_voters_def)
qed

end
